theory Spec2Isabelle
  imports Complex_Main "HOL-Library.Word"
begin

section \<open>Common types\<close>

text \<open>
  Bytes are 8-bit words. In the audio module a JavaScript \<open>number\<close> (a time, a
  duration, a volume) is modelled as a rational. In the container wrapper, whose results
  are written into fixed-width fields, the numbers are IEEE 754 double-precision values
  with their rounding (type \<open>double\<close> below).
\<close>

type_synonym byte = "8 word"
type_synonym number = rat

datatype error =
    RangeError
  | InvalidStateError
  | EncodingError
  | NotAllowedError
  | NotSupportedError

record blob =
  blob_bytes :: "byte list"
  blob_type :: string

text \<open>Sequencing of fallible steps: the first exception ends the computation.\<close>

definition and_then :: "error + 'a \<Rightarrow> ('a \<Rightarrow> error + 'b) \<Rightarrow> error + 'b" where
  "and_then r f = (case r of Inl e \<Rightarrow> Inl e | Inr x \<Rightarrow> f x)"

section \<open>The WAV container wrapper (\<open>createWavFile\<close>)\<close>

subsection \<open>Double-precision numbers\<close>

text \<open>
  A double is a finite value, an infinity or \<open>NaN\<close>; the sign of zero is not kept.
  The finite doubles are the rationals \<open>m * 2 ^ e\<close> with \<open>\<bar>m\<bar> < 2 ^ 53\<close> and
  \<open>- 1074 \<le> e \<le> 971\<close>: \<open>Finite r\<close> stands for a double when \<open>r\<close> is one of
  them, and every operation below returns such values.
\<close>

datatype double = Finite rat | PosInfinity | NegInfinity | NaN

text \<open>Rounding to the nearest integer, a tie going to the even one.\<close>

definition round_even :: "rat \<Rightarrow> int" where
  "round_even x =
     (let f = \<lfloor>x\<rfloor>; r = x - of_int f
      in if r < 1 / 2 then f else if 1 / 2 < r then f + 1 else if even f then f else f + 1)"

text \<open>\<open>floor_log2 n\<close> is the \<open>e\<close> with \<open>2 ^ e \<le> n < 2 ^ (e + 1)\<close>, for \<open>n \<ge> 1\<close>.\<close>

function floor_log2 :: "int \<Rightarrow> int" where
  "floor_log2 n = (if n \<le> 1 then 0 else 1 + floor_log2 (n div 2))"
  by pat_completeness auto
termination
  by (relation "measure nat") auto

declare floor_log2.simps [simp del]

text \<open>The binary exponent of a rational other than zero: \<open>2 ^ e \<le> \<bar>x\<bar> < 2 ^ (e + 1)\<close>.\<close>

definition exponent :: "rat \<Rightarrow> int" where
  "exponent x =
     (if 1 \<le> \<bar>x\<bar> then floor_log2 \<lfloor>\<bar>x\<bar>\<rfloor>
      else - (floor_log2 (\<lceil>1 / \<bar>x\<bar>\<rceil> - 1) + 1))"

text \<open>
  The double nearest to a rational (round to nearest, ties to even): 53 significant bits,
  the last bit no finer than \<open>2 ^ - 1074\<close>, and an infinity when the rounded value
  reaches \<open>2 ^ 1024\<close>.
\<close>

definition fl :: "rat \<Rightarrow> double" where
  "fl x =
     (if x = 0 then Finite 0
      else
        (let q = max (exponent x - 52) (- 1074);
             y = of_int (round_even (x / 2 powi q)) * 2 powi q
         in if 2 ^ 1024 \<le> \<bar>y\<bar> then (if 0 < x then PosInfinity else NegInfinity)
            else Finite y))"

text \<open>The operators \<open>+\<close>, \<open>*\<close> and \<open>/\<close> on doubles: the exact result, rounded.\<close>

fun double_add :: "double \<Rightarrow> double \<Rightarrow> double" where
  "double_add (Finite a) (Finite b) = fl (a + b)"
| "double_add NaN y = NaN"
| "double_add x NaN = NaN"
| "double_add (Finite a) y = y"
| "double_add x (Finite b) = x"
| "double_add x y = (if x = y then x else NaN)"

fun double_mul :: "double \<Rightarrow> double \<Rightarrow> double" where
  "double_mul (Finite a) (Finite b) = fl (a * b)"
| "double_mul NaN y = NaN"
| "double_mul x NaN = NaN"
| "double_mul (Finite a) y =
     (if a = 0 then NaN else if (0 < a) = (y = PosInfinity) then PosInfinity else NegInfinity)"
| "double_mul x (Finite b) =
     (if b = 0 then NaN else if (0 < b) = (x = PosInfinity) then PosInfinity else NegInfinity)"
| "double_mul x y = (if x = y then PosInfinity else NegInfinity)"

fun double_div :: "double \<Rightarrow> double \<Rightarrow> double" where
  "double_div (Finite a) (Finite b) =
     (if b = 0 then (if a = 0 then NaN else if 0 < a then PosInfinity else NegInfinity)
      else fl (a / b))"
| "double_div NaN y = NaN"
| "double_div x NaN = NaN"
| "double_div (Finite a) y = Finite 0"
| "double_div x (Finite b) =
     (if (0 \<le> b) = (x = PosInfinity) then PosInfinity else NegInfinity)"
| "double_div x y = NaN"

text \<open>A length (\<open>samples.length\<close>) as a number.\<close>

definition double_of_nat :: "nat \<Rightarrow> double" where
  "double_of_nat n = fl (of_nat n)"

subsection \<open>Number conversions of the \<open>DataView\<close> setters\<close>

text \<open>
  \<open>setUint8\<close>, \<open>setUint16\<close> and \<open>setUint32\<close> convert their argument with
  \<open>ToUint8\<close>, \<open>ToUint16\<close>, \<open>ToUint32\<close>: \<open>NaN\<close> and the infinities give 0, a finite
  value is truncated towards zero and reduced modulo \<open>2 ^ 8\<close>, \<open>2 ^ 16\<close>, \<open>2 ^ 32\<close>.
\<close>

definition number_trunc :: "rat \<Rightarrow> int" where
  "number_trunc x = (if 0 \<le> x then \<lfloor>x\<rfloor> else \<lceil>x\<rceil>)"

definition ToUint :: "nat \<Rightarrow> double \<Rightarrow> nat" where
  "ToUint w x =
     (case x of Finite r \<Rightarrow> nat (number_trunc r mod 2 ^ w) | _ \<Rightarrow> 0)"

text \<open>The \<open>n\<close> low-order bytes of a natural number, least significant first.\<close>

fun le_bytes :: "nat \<Rightarrow> nat \<Rightarrow> byte list" where
  "le_bytes 0 v = []"
| "le_bytes (Suc n) v = of_nat (v mod 256) # le_bytes n (v div 256)"

definition uint_bytes :: "nat \<Rightarrow> double \<Rightarrow> bool \<Rightarrow> byte list" where
  "uint_bytes n x littleEndian =
     (let bs = le_bytes n (ToUint (8 * n) x) in if littleEndian then bs else rev bs)"

subsection \<open>Writes into the buffer\<close>

text \<open>
  A view over an \<open>ArrayBuffer\<close> is a list of bytes. A write of \<open>bs\<close> at offset
  \<open>off\<close> replaces the bytes \<open>off ..< off + length bs\<close>; a write that does not fit
  raises \<open>RangeError\<close>, as the \<open>DataView\<close> setters and \<open>Uint8Array.set\<close> do.
\<close>

definition store :: "byte list \<Rightarrow> nat \<Rightarrow> byte list \<Rightarrow> error + byte list" where
  "store view off bs =
     (if off + length bs \<le> length view
      then Inr (take off view @ bs @ drop (off + length bs) view)
      else Inl RangeError)"

definition setUint8 :: "byte list \<Rightarrow> nat \<Rightarrow> double \<Rightarrow> error + byte list" where
  "setUint8 view off x = store view off (uint_bytes 1 x True)"

definition setUint16 :: "byte list \<Rightarrow> nat \<Rightarrow> double \<Rightarrow> bool \<Rightarrow> error + byte list" where
  "setUint16 view off x littleEndian = store view off (uint_bytes 2 x littleEndian)"

definition setUint32 :: "byte list \<Rightarrow> nat \<Rightarrow> double \<Rightarrow> bool \<Rightarrow> error + byte list" where
  "setUint32 view off x littleEndian = store view off (uint_bytes 4 x littleEndian)"

text \<open>\<open>string.charCodeAt(i)\<close>: the code of a character.\<close>

definition charCode :: "char \<Rightarrow> double" where
  "charCode c = Finite (of_nat (of_char c))"

text \<open>
  \<open>writeString\<close>: the loop \<open>for (i = 0; i < string.length; i++)
  view.setUint8(offset + i, string.charCodeAt(i))\<close>, as a recursion over the characters
  left, the offset moving along.
\<close>

fun writeString :: "byte list \<Rightarrow> nat \<Rightarrow> string \<Rightarrow> error + byte list" where
  "writeString view off [] = Inr view"
| "writeString view off (c # cs) =
     and_then (setUint8 view off (charCode c)) (\<lambda>view'. writeString view' (Suc off) cs)"

text \<open>\<open>new Uint8Array(buffer, 44).set(samples)\<close>: copy the samples in at an offset.\<close>

definition set_at :: "byte list \<Rightarrow> nat \<Rightarrow> byte list \<Rightarrow> error + byte list" where
  "set_at buffer off samples = store buffer off samples"

subsection \<open>\<open>createWavFile\<close>\<close>

definition createWavFile :: "byte list \<Rightarrow> double \<Rightarrow> double \<Rightarrow> double \<Rightarrow> error + blob" where
  "createWavFile samples sampleRate numChannels bitDepth =
     (let buffer = replicate (44 + length samples) (0 :: byte) in
      and_then (writeString buffer 0 ''RIFF'') (\<lambda>view.
      and_then (setUint32 view 4
        (double_add (Finite 36) (double_of_nat (length samples))) True) (\<lambda>view.
      and_then (writeString view 8 ''WAVE'') (\<lambda>view.
      and_then (writeString view 12 ''fmt '') (\<lambda>view.
      and_then (setUint32 view 16 (Finite 16) True) (\<lambda>view.
      and_then (setUint16 view 20 (Finite 1) True) (\<lambda>view.
      and_then (setUint16 view 22 numChannels True) (\<lambda>view.
      and_then (setUint32 view 24 sampleRate True) (\<lambda>view.
      and_then (setUint32 view 28
        (double_mul (double_mul sampleRate numChannels) (double_div bitDepth (Finite 8)))
        True) (\<lambda>view.
      and_then (setUint16 view 32
        (double_mul numChannels (double_div bitDepth (Finite 8))) True) (\<lambda>view.
      and_then (setUint16 view 34 bitDepth True) (\<lambda>view.
      and_then (writeString view 36 ''data'') (\<lambda>view.
      and_then (setUint32 view 40 (double_of_nat (length samples)) True) (\<lambda>view.
      and_then (set_at view 44 samples) (\<lambda>buffer'.
      Inr \<lparr>blob_bytes = buffer', blob_type = ''audio/wav''\<rparr>)))))))))))))))"

subsection \<open>Reading the header back\<close>

text \<open>
  The layout table of the specification speaks of little-endian fields at byte offsets.
  \<open>le_value\<close> reads a little-endian byte string as a number, \<open>field\<close> the \<open>n\<close> bytes
  at an offset, \<open>tag\<close> the bytes of a four-character tag.
\<close>

fun le_value :: "byte list \<Rightarrow> nat" where
  "le_value [] = 0"
| "le_value (b # bs) = unat b + 256 * le_value bs"

definition field :: "byte list \<Rightarrow> nat \<Rightarrow> nat \<Rightarrow> nat" where
  "field bytes off n = le_value (take n (drop off bytes))"

definition tag :: "string \<Rightarrow> byte list" where
  "tag s = map (\<lambda>c. of_nat (of_char c)) s"

text \<open>The 44 header bytes, field after field in the order of the writes.\<close>

definition wav_header :: "nat \<Rightarrow> double \<Rightarrow> double \<Rightarrow> double \<Rightarrow> byte list" where
  "wav_header len sampleRate numChannels bitDepth =
     tag ''RIFF'' @ uint_bytes 4 (double_add (Finite 36) (double_of_nat len)) True @
     tag ''WAVE'' @ tag ''fmt '' @
     uint_bytes 4 (Finite 16) True @ uint_bytes 2 (Finite 1) True @
     uint_bytes 2 numChannels True @ uint_bytes 4 sampleRate True @
     uint_bytes 4
       (double_mul (double_mul sampleRate numChannels) (double_div bitDepth (Finite 8))) True @
     uint_bytes 2 (double_mul numChannels (double_div bitDepth (Finite 8))) True @
     uint_bytes 2 bitDepth True @
     tag ''data'' @ uint_bytes 4 (double_of_nat len) True"

subsection \<open>The decoder\<close>

text \<open>
  A decoded buffer: the sample data, the sample rate, the channel count and the duration
  in seconds.
\<close>

datatype decode_error = DecodeError

record decoded_buffer =
  decoded_samples :: "byte list"
  decoded_sampleRate :: nat
  decoded_channels :: nat
  decoded_duration :: rat

text \<open>
  Modelled from the spec: the Decoder, \<open>decode(payload)\<close>. The program decodes with the
  platform's \<open>decodeAudioData\<close>, which is not among the sources. The specification has a
  payload in the container layout of its table decoded, and anything that is not a
  consistent encoding fail with \<open>DecodeError\<close>: the four tags in their places, audio
  format 1, a byte rate that is not zero, and the data the data size announces present
  from offset 44. The duration of the decoded buffer is the data size over the byte rate.
\<close>

definition decode :: "byte list \<Rightarrow> decode_error + decoded_buffer" where
  "decode payload =
     (if 44 \<le> length payload
         \<and> take 4 payload = tag ''RIFF''
         \<and> take 4 (drop 8 payload) = tag ''WAVE''
         \<and> take 4 (drop 12 payload) = tag ''fmt ''
         \<and> field payload 20 2 = 1
         \<and> field payload 28 4 \<noteq> 0
         \<and> take 4 (drop 36 payload) = tag ''data''
         \<and> 44 + field payload 40 4 \<le> length payload
      then Inr \<lparr>decoded_samples = take (field payload 40 4) (drop 44 payload),
                decoded_sampleRate = field payload 24 4,
                decoded_channels = field payload 22 2,
                decoded_duration = of_nat (field payload 40 4) / of_nat (field payload 28 4)\<rparr>
      else Inl DecodeError)"

section \<open>The audio module\<close>

subsection \<open>Platform objects\<close>

text \<open>
  The Web Audio objects the module holds, reduced to what the module reads and writes.
  A gain parameter has its \<open>value\<close> and the list of automation events scheduled on it;
  a buffer source has its buffer and a playback status.
\<close>

datatype ctx_state = Suspended | Running | Closed

record audio_context =
  state :: ctx_state
  currentTime :: number

datatype automation =
    SetValueAtTime number number
  | LinearRampToValueAtTime number number
  | SetTargetAtTime number number number

fun event_time :: "automation \<Rightarrow> number" where
  "event_time (SetValueAtTime v t) = t"
| "event_time (LinearRampToValueAtTime v t) = t"
| "event_time (SetTargetAtTime v t c) = t"

datatype connection = MasterGain | Destination

record gain_node =
  gain_value :: number
  gain_events :: "automation list"
  gain_output :: "connection option"

definition cancelScheduledValues :: "number \<Rightarrow> gain_node \<Rightarrow> gain_node" where
  "cancelScheduledValues t g = g\<lparr>gain_events := filter (\<lambda>ev. event_time ev < t) (gain_events g)\<rparr>"

definition setValueAtTime :: "number \<Rightarrow> number \<Rightarrow> gain_node \<Rightarrow> gain_node" where
  "setValueAtTime v t g = g\<lparr>gain_events := gain_events g @ [SetValueAtTime v t]\<rparr>"

definition linearRampToValueAtTime :: "number \<Rightarrow> number \<Rightarrow> gain_node \<Rightarrow> gain_node" where
  "linearRampToValueAtTime v t g = g\<lparr>gain_events := gain_events g @ [LinearRampToValueAtTime v t]\<rparr>"

definition setTargetAtTime :: "number \<Rightarrow> number \<Rightarrow> number \<Rightarrow> gain_node \<Rightarrow> gain_node" where
  "setTargetAtTime v t c g = g\<lparr>gain_events := gain_events g @ [SetTargetAtTime v t c]\<rparr>"

record audio_buffer =
  buffer_length :: nat
  buffer_sampleRate :: number
  buffer_channels :: nat

datatype src_status = Unstarted | Playing | Stopped | Ended

record source_node =
  src_buffer :: "audio_buffer option"
  src_status :: src_status

text \<open>
  \<open>AudioBufferSourceNode.stop()\<close> raises \<open>InvalidStateError\<close> on a node that is not
  playing: one never started, and (what the comment in \<open>stopAllSounds\<close> expects) one
  that has stopped already.
\<close>

definition source_stop :: "source_node \<Rightarrow> error + source_node" where
  "source_stop src =
     (if src_status src = Playing then Inr (src\<lparr>src_status := Stopped\<rparr>)
      else Inl InvalidStateError)"

text \<open>\<open>interface AudioSourceEntry\<close>\<close>

record entry =
  source :: source_node
  gain :: gain_node

subsection \<open>Module state\<close>

text \<open>
  The module's variables \<open>audioContext\<close>, \<open>masterGainNode\<close>, \<open>activeSources\<close> and
  \<open>fadeTimeout\<close>, and what of the platform they refer to: the \<open>AudioSourceEntry\<close>
  objects (by identity, a number each), the pending \<open>window\<close> timers (handle and delay in
  milliseconds; the only callback ever scheduled is the one of \<open>fadeOutAllSounds\<close>) and
  the lines written with \<open>console.error\<close>. \<open>activeSources\<close> is a \<open>Set\<close>: a list
  without duplicates, in insertion order.
\<close>

record audio_module =
  audioContext :: "audio_context option"
  masterGainNode :: "gain_node option"
  activeSources :: "nat list"
  fadeTimeout :: "nat option"
  entries :: "nat \<Rightarrow> entry option"
  next_entry :: nat
  timers :: "(nat \<times> number) list"
  next_timer :: nat
  console :: "(string \<times> error) list"

text \<open>The state at module load. Timer handles are positive integers.\<close>

definition initial_state :: audio_module where
  "initial_state =
     \<lparr>audioContext = None, masterGainNode = None, activeSources = [], fadeTimeout = None,
      entries = (\<lambda>i. None), next_entry = 0, timers = [], next_timer = 1, console = []\<rparr>"

definition set_add :: "nat \<Rightarrow> nat list \<Rightarrow> nat list" where
  "set_add x xs = (if x \<in> set xs then xs else xs @ [x])"

definition set_delete :: "nat \<Rightarrow> nat list \<Rightarrow> nat list" where
  "set_delete x xs = removeAll x xs"

definition clearTimeout :: "nat \<Rightarrow> audio_module \<Rightarrow> audio_module" where
  "clearTimeout h s = s\<lparr>timers := filter (\<lambda>t. fst t \<noteq> h) (timers s)\<rparr>"

definition setTimeout :: "number \<Rightarrow> audio_module \<Rightarrow> nat \<times> audio_module" where
  "setTimeout delay s =
     (next_timer s, s\<lparr>timers := timers s @ [(next_timer s, delay)], next_timer := Suc (next_timer s)\<rparr>)"

definition update_entry :: "(entry \<Rightarrow> entry) \<Rightarrow> nat \<Rightarrow> audio_module \<Rightarrow> audio_module" where
  "update_entry f i s =
     (case entries s i of None \<Rightarrow> s | Some en \<Rightarrow> s\<lparr>entries := (entries s)(i \<mapsto> f en)\<rparr>)"

subsection \<open>\<open>getAudioContext\<close> and \<open>setMasterVolume\<close>\<close>

text \<open>
  The context is created on first use, together with the master gain node
  (value \<open>1.0\<close>, connected to the destination). A new context starts suspended until the
  platform lets it run.
\<close>

definition getAudioContext :: "audio_module \<Rightarrow> audio_context \<times> audio_module" where
  "getAudioContext s =
     (case audioContext s of
        Some ctx \<Rightarrow> (ctx, s)
      | None \<Rightarrow>
          (let ctx = \<lparr>state = Suspended, currentTime = 0\<rparr> in
           (ctx, s\<lparr>audioContext := Some ctx,
                   masterGainNode :=
                     Some \<lparr>gain_value = 1, gain_events = [], gain_output = Some Destination\<rparr>\<rparr>)))"

definition setMasterVolume :: "number \<Rightarrow> audio_module \<Rightarrow> audio_module" where
  "setMasterVolume volume s0 =
     (let (ctx, s) = getAudioContext s0 in
      case masterGainNode s of
        Some g \<Rightarrow> s\<lparr>masterGainNode := Some (setTargetAtTime volume (currentTime ctx) (2 / 100) g)\<rparr>
      | None \<Rightarrow> s)"

subsection \<open>\<open>stopAllSounds\<close>\<close>

text \<open>
  The body of the \<open>forEach\<close> callback with its \<open>try\<close>/\<open>catch\<close>: the scheduled values
  are cancelled, then the source is stopped; an exception of \<open>stop\<close> is ignored.
\<close>

definition stop_entry :: "entry \<Rightarrow> entry" where
  "stop_entry en =
     (let en1 = en\<lparr>gain := cancelScheduledValues 0 (gain en)\<rparr> in
      case source_stop (source en1) of
        Inl e \<Rightarrow> en1
      | Inr src \<Rightarrow> en1\<lparr>source := src\<rparr>)"

text \<open>\<open>if (fadeTimeout) { window.clearTimeout(fadeTimeout); fadeTimeout = null; }\<close>:
  a handle \<open>0\<close> would be falsy.\<close>

definition cancel_fade :: "audio_module \<Rightarrow> audio_module" where
  "cancel_fade s =
     (case fadeTimeout s of
        None \<Rightarrow> s
      | Some h \<Rightarrow> if h \<noteq> 0 then (clearTimeout h s)\<lparr>fadeTimeout := None\<rparr> else s)"

definition stopAllSounds :: "audio_module \<Rightarrow> audio_module" where
  "stopAllSounds s =
     (let s1 = cancel_fade s;
          s2 = fold (update_entry stop_entry) (activeSources s1) s1
      in s2\<lparr>activeSources := []\<rparr>)"

subsection \<open>\<open>fadeOutAllSounds\<close>\<close>

text \<open>The body of the second \<open>forEach\<close> callback; none of its three calls raises here.\<close>

definition ramp_entry :: "number \<Rightarrow> number \<Rightarrow> entry \<Rightarrow> entry" where
  "ramp_entry now endTime en =
     (let g = cancelScheduledValues now (gain en);
          g = setValueAtTime (gain_value g) now g;
          g = linearRampToValueAtTime 0 endTime g
      in en\<lparr>gain := g\<rparr>)"

definition fadeOutAllSounds :: "number \<Rightarrow> audio_module \<Rightarrow> audio_module" where
  "fadeOutAllSounds duration s0 =
     (let (ctx, s) = getAudioContext s0 in
      if length (activeSources s) = 0 then s
      else if duration \<le> 5 / 100 then stopAllSounds s
      else
        (let s1 = cancel_fade s;
             endTime = currentTime ctx + duration;
             s2 = fold (update_entry (ramp_entry (currentTime ctx) endTime)) (activeSources s1) s1;
             (h, s3) = setTimeout (duration * 1000) s2
         in s3\<lparr>fadeTimeout := Some h\<rparr>))"

text \<open>A pending timer fires: it leaves the timer list and its callback, \<open>stopAllSounds\<close>, runs.\<close>

definition timer_fired :: "nat \<Rightarrow> audio_module \<Rightarrow> audio_module" where
  "timer_fired h s =
     (if h \<in> fst ` set (timers s) then stopAllSounds (clearTimeout h s) else s)"

subsection \<open>\<open>playAudioBlob\<close>\<close>

text \<open>
  What the platform answers during one call: the decoder (a function of the payload's
  bytes), and whether \<open>ctx.resume()\<close>, the creation of the two nodes and
  \<open>source.start(0)\<close> raise.
\<close>

record play_env =
  decodeAudioData :: "byte list \<Rightarrow> error + audio_buffer"
  resume_error :: "error option"
  create_error :: "error option"
  start_error :: "error option"

datatype 'a promise = Resolved 'a | Rejected error

text \<open>
  The \<open>try\<close> block in three parts, each returning the state it reached and the
  exception it raised, if any: up to the awaited \<open>ctx.resume()\<close>; the awaited decoding
  (no state involved); and the synchronous rest, from the solo enforcement to
  \<open>source.start(0)\<close>.
\<close>

definition play_begin :: "play_env \<Rightarrow> audio_module \<Rightarrow> audio_module \<times> error option" where
  "play_begin env s0 =
     (let (ctx, s) = getAudioContext s0 in
      if state ctx = Suspended then
        (case resume_error env of
           Some e \<Rightarrow> (s, Some e)
         | None \<Rightarrow> (s\<lparr>audioContext := Some (ctx\<lparr>state := Running\<rparr>)\<rparr>, None))
      else (s, None))"

definition play_finish ::
  "play_env \<Rightarrow> audio_buffer \<Rightarrow> number \<Rightarrow> audio_module \<Rightarrow> audio_module \<times> error option" where
  "play_finish env audioBuffer volume s0 =
     (let s1 = stopAllSounds s0 in
      case create_error env of
        Some e \<Rightarrow> (s1, Some e)
      | None \<Rightarrow>
          (let src = \<lparr>src_buffer = Some audioBuffer, src_status = Unstarted\<rparr>;
               padGainNode = \<lparr>gain_value = volume, gain_events = [],
                 gain_output = Some (if masterGainNode s1 \<noteq> None then MasterGain else Destination)\<rparr>;
               i = next_entry s1;
               s2 = s1\<lparr>entries := (entries s1)(i \<mapsto> \<lparr>source = src, gain = padGainNode\<rparr>),
                       next_entry := Suc i\<rparr>;
               s3 = s2\<lparr>activeSources := set_add i (activeSources s2)\<rparr>
           in case start_error env of
                Some e \<Rightarrow> (s3, Some e)
              | None \<Rightarrow>
                  (update_entry (\<lambda>en. en\<lparr>source := (source en)\<lparr>src_status := Playing\<rparr>\<rparr>) i s3,
                   None)))"

text \<open>The \<open>catch\<close> block: \<open>console.error("Error playing audio:", error)\<close>.\<close>

definition play_catch :: "error \<Rightarrow> audio_module \<Rightarrow> audio_module" where
  "play_catch e s = s\<lparr>console := console s @ [(''Error playing audio:'', e)]\<rparr>"

text \<open>A whole call with nothing else running between its parts.\<close>

definition playAudioBlob ::
  "play_env \<Rightarrow> blob \<Rightarrow> number \<Rightarrow> audio_module \<Rightarrow> unit promise \<times> audio_module" where
  "playAudioBlob env blob volume s0 =
     (case play_begin env s0 of
        (s1, Some e) \<Rightarrow> (Resolved (), play_catch e s1)
      | (s1, None) \<Rightarrow>
          (case decodeAudioData env (blob_bytes blob) of
             Inl e \<Rightarrow> (Resolved (), play_catch e s1)
           | Inr audioBuffer \<Rightarrow>
               (case play_finish env audioBuffer volume s1 of
                  (s2, Some e) \<Rightarrow> (Resolved (), play_catch e s2)
                | (s2, None) \<Rightarrow> (Resolved (), s2))))"

text \<open>
  \<open>source.onended\<close>: a playing source reaches its end (one that was stopped reports its
  end as well) and the callback deletes the entry from \<open>activeSources\<close>.
\<close>

definition source_ended :: "nat \<Rightarrow> audio_module \<Rightarrow> audio_module" where
  "source_ended i s =
     (case entries s i of
        None \<Rightarrow> s
      | Some en \<Rightarrow>
          if src_status (source en) = Unstarted then s
          else
            (let en' = (if src_status (source en) = Playing
                        then en\<lparr>source := (source en)\<lparr>src_status := Ended\<rparr>\<rparr> else en)
             in s\<lparr>entries := (entries s)(i \<mapsto> en'),
                  activeSources := set_delete i (activeSources s)\<rparr>))"

subsection \<open>Runs of the event loop\<close>

text \<open>
  The event loop runs one task at a time. A task is a call of one of the exported
  functions, a part of a \<open>playAudioBlob\<close> call between two of its \<open>await\<close>s (so that
  other tasks may run in between), a source ending, a timer firing, or time passing.
  The last part of a \<open>playAudioBlob\<close> call runs after its first part, which has
  created the context.
\<close>

datatype event =
    Play play_env blob number
  | PlayBegin play_env
  | PlayFinish play_env audio_buffer number
  | PlayCatch error
  | StopAll
  | FadeOut number
  | SetMasterVolume number
  | SourceEnded nat
  | TimerFired nat
  | Advance number

fun step :: "event \<Rightarrow> audio_module \<Rightarrow> audio_module" where
  "step (Play env blob volume) s = snd (playAudioBlob env blob volume s)"
| "step (PlayBegin env) s = fst (play_begin env s)"
| "step (PlayFinish env audioBuffer volume) s =
     (if audioContext s = None then s else fst (play_finish env audioBuffer volume s))"
| "step (PlayCatch e) s = play_catch e s"
| "step StopAll s = stopAllSounds s"
| "step (FadeOut duration) s = fadeOutAllSounds duration s"
| "step (SetMasterVolume volume) s = setMasterVolume volume s"
| "step (SourceEnded i) s = source_ended i s"
| "step (TimerFired h) s = timer_fired h s"
| "step (Advance dt) s =
     (case audioContext s of
        None \<Rightarrow> s
      | Some ctx \<Rightarrow> s\<lparr>audioContext := Some (ctx\<lparr>currentTime := currentTime ctx + \<bar>dt\<bar>\<rparr>)\<rparr>)"

definition run :: "event list \<Rightarrow> audio_module" where
  "run evs = fold step evs initial_state"

subsection \<open>Invariants of the reachable states\<close>

text \<open>Handles are positive, and every scheduled timer is the one \<open>fadeTimeout\<close> holds, so
  there is at most one.\<close>

definition fade_tracked :: "audio_module \<Rightarrow> bool" where
  "fade_tracked s =
     (next_timer s \<noteq> 0 \<and> fadeTimeout s \<noteq> Some 0 \<and> length (timers s) \<le> 1 \<and>
      list_all (\<lambda>t. fadeTimeout s = Some (fst t) \<and> fst t < next_timer s) (timers s))"

text \<open>The master gain node exists as soon as the context does.\<close>

definition master_ready :: "audio_module \<Rightarrow> bool" where
  "master_ready s = (audioContext s = None \<or> masterGainNode s \<noteq> None)"

text \<open>Registered entries are allocated, at most one is registered, and the context exists
  once an entry is registered.\<close>

definition registry_ok :: "audio_module \<Rightarrow> bool" where
  "registry_ok s =
     (length (activeSources s) \<le> 1 \<and>
      list_all (\<lambda>i. i < next_entry s \<and> entries s i \<noteq> None) (activeSources s) \<and>
      (activeSources s = [] \<or> audioContext s \<noteq> None))"

text \<open>The three together hold at module load and are kept by every task.\<close>

definition module_inv :: "audio_module \<Rightarrow> bool" where
  "module_inv s = (fade_tracked s \<and> master_ready s \<and> registry_ok s)"

subsection \<open>Sample inputs\<close>

text \<open>
  Concrete inputs for the examples that follow the theorems: a platform whose decoder
  rejects an empty payload and where nothing else fails, one where the source cannot be
  started, one where no node can be created, one where everything fails, a payload, an
  empty payload and a decoded buffer.
\<close>

definition example_env :: play_env where
  "example_env =
     \<lparr>decodeAudioData = (\<lambda>bs. if bs = [] then Inl EncodingError
        else Inr \<lparr>buffer_length = length bs, buffer_sampleRate = 24000, buffer_channels = 1\<rparr>),
      resume_error = None, create_error = None, start_error = None\<rparr>"

definition unstartable_env :: play_env where
  "unstartable_env = example_env\<lparr>start_error := Some InvalidStateError\<rparr>"

definition uncreatable_env :: play_env where
  "uncreatable_env = example_env\<lparr>create_error := Some NotSupportedError\<rparr>"

definition failing_env :: play_env where
  "failing_env =
     \<lparr>decodeAudioData = (\<lambda>bs. Inl EncodingError), resume_error = Some NotAllowedError,
      create_error = Some NotSupportedError, start_error = Some InvalidStateError\<rparr>"

definition example_blob :: blob where
  "example_blob = \<lparr>blob_bytes = [1, 2, 3, 4], blob_type = ''audio/wav''\<rparr>"

definition empty_blob :: blob where
  "empty_blob = \<lparr>blob_bytes = [], blob_type = ''audio/wav''\<rparr>"

definition example_buffer :: audio_buffer where
  "example_buffer = \<lparr>buffer_length = 2, buffer_sampleRate = 24000, buffer_channels = 1\<rparr>"

text \<open>
  A few runs: a sound playing; the same with a five-second fade under way; the sound
  ended by itself during the fade; a source that could not be started, with a fade under
  way.
\<close>

abbreviation playing :: audio_module where
  "playing \<equiv> run [Play example_env example_blob (1 / 2)]"

abbreviation fading :: audio_module where
  "fading \<equiv> run [Play example_env example_blob (1 / 2), FadeOut 5]"

abbreviation faded_out :: audio_module where
  "faded_out \<equiv> run [Play example_env example_blob (1 / 2), FadeOut 5, SourceEnded 0]"

abbreviation unstarted :: audio_module where
  "unstarted \<equiv> run [Play unstartable_env example_blob (1 / 2), FadeOut 5]"

section \<open>Properties of the double-precision numbers\<close>

lemma round_even_of_int [simp]: "round_even (of_int n) = n"
  by (simp add: round_even_def)

lemma floor_log2_nonneg: "0 \<le> floor_log2 n"
  by (induction n rule: floor_log2.induct) (subst floor_log2.simps, simp)

lemma floor_log2_bounds:
  "1 \<le> n \<Longrightarrow> 2 ^ nat (floor_log2 n) \<le> n \<and> n < 2 * 2 ^ nat (floor_log2 n)"
proof (induction n rule: floor_log2.induct)
  case (1 n)
  show ?case
  proof (cases "n \<le> 1")
    case True
    then have "n = 1" using "1.prems" by simp
    then show ?thesis by (subst (1 2) floor_log2.simps) simp
  next
    case False
    then have h: "1 \<le> n div 2" by simp
    define c where "c = nat (floor_log2 (n div 2))"
    have ih: "2 ^ c \<le> n div 2" "n div 2 < 2 * 2 ^ c"
      using "1.IH" [OF False h] by (simp_all add: c_def)
    have e: "floor_log2 n = 1 + floor_log2 (n div 2)"
      using False by (subst floor_log2.simps) simp
    have "nat (floor_log2 n) = Suc c"
      using floor_log2_nonneg [of "n div 2"] by (simp add: e c_def nat_add_distrib)
    moreover have "2 * 2 ^ c \<le> n" using ih(1) by linarith
    moreover have "n < 2 * (2 * 2 ^ c)" using ih(2) by linarith
    ultimately show ?thesis by simp
  qed
qed

lemma exponent_ge1: "1 \<le> \<bar>x\<bar> \<Longrightarrow> exponent x = floor_log2 \<lfloor>\<bar>x\<bar>\<rfloor>"
  by (simp add: exponent_def)

lemma exponent_lt1:
  "\<not> 1 \<le> \<bar>x\<bar> \<Longrightarrow> exponent x = - (floor_log2 (\<lceil>1 / \<bar>x\<bar>\<rceil> - 1) + 1)"
  by (simp add: exponent_def)

lemma exponent_lower: "x \<noteq> 0 \<Longrightarrow> 2 powi (exponent x) \<le> \<bar>x\<bar>"
proof (cases "1 \<le> \<bar>x\<bar>")
  case True
  define n where "n = \<lfloor>\<bar>x\<bar>\<rfloor>"
  have n: "1 \<le> n" using True by (simp add: n_def)
  define c where "c = nat (floor_log2 n)"
  have "2 ^ c \<le> n"
    using floor_log2_bounds [OF n] by (simp add: c_def)
  then have "(of_int (2 ^ c) :: rat) \<le> of_int n"
    by (simp only: of_int_le_iff)
  then have "(2::rat) ^ c \<le> of_int n"
    by simp
  also have "(of_int n :: rat) \<le> \<bar>x\<bar>"
    by (simp add: n_def)
  finally have le: "(2::rat) ^ c \<le> \<bar>x\<bar>" .
  have "floor_log2 n = int c"
    using floor_log2_nonneg [of n] by (simp add: c_def)
  then have "exponent x = int c"
    using exponent_ge1 [OF True] by (simp only: n_def)
  then have "2 powi (exponent x) = (2::rat) ^ c"
    by (simp only: power_int_of_nat)
  then show ?thesis using le by (simp only:)
next
  case False
  assume nz: "x \<noteq> 0"
  define a where "a = \<bar>x\<bar>"
  have a: "0 < a" "a < 1" using False nz by (simp_all add: a_def)
  define m where "m = \<lceil>1 / a\<rceil> - 1"
  have "1 < 1 / a" using a by simp
  then have "2 \<le> \<lceil>1 / a\<rceil>" by linarith
  then have m: "1 \<le> m" unfolding m_def by linarith
  define c where "c = nat (floor_log2 m)"
  have "m < 2 * 2 ^ c"
    using floor_log2_bounds [OF m] by (simp add: c_def)
  then have "\<lceil>1 / a\<rceil> \<le> 2 ^ Suc c"
    unfolding m_def by simp
  then have "1 / a \<le> of_int (2 ^ Suc c)"
    by (simp only: ceiling_le_iff)
  then have "1 / a \<le> 2 ^ Suc c" by simp
  then have "1 \<le> 2 ^ Suc c * a"
    using a(1) by (simp add: pos_divide_le_eq)
  then have le: "1 / 2 ^ Suc c \<le> a"
    by (simp add: pos_divide_le_eq mult.commute)
  have "floor_log2 m + 1 = int (Suc c)"
    using floor_log2_nonneg [of m] by (simp add: c_def)
  then have "exponent x = - int (Suc c)"
    using exponent_lt1 [OF False] by (simp only: m_def a_def)
  then have "2 powi (exponent x) = inverse ((2::rat) ^ Suc c)"
    by (simp only: power_int_minus power_int_of_nat)
  then have "2 powi (exponent x) = 1 / (2::rat) ^ Suc c"
    by (simp only: inverse_eq_divide)
  then show ?thesis using le by (simp only: a_def)
qed

lemma exponent_less:
  assumes "x \<noteq> 0" "\<bar>x\<bar> < 2 powi n"
  shows "exponent x < n"
proof (rule ccontr)
  assume "\<not> exponent x < n"
  then have "n \<le> exponent x" by simp
  then have "(2::rat) powi n \<le> 2 powi (exponent x)"
    by (intro power_int_increasing) simp_all
  then show False
    using exponent_lower [OF assms(1)] assms(2) by linarith
qed

text \<open>A rational \<open>m * 2 ^ e\<close> with \<open>\<bar>m\<bar> < 2 ^ 53\<close> and \<open>e\<close> in range is a double.\<close>

lemma fl_exact:
  assumes "\<bar>m\<bar> < 2 ^ 53" "- 1074 \<le> e" "e \<le> 971"
  shows "fl (of_int m * 2 powi e) = Finite (of_int m * 2 powi e)"
proof (cases "m = 0")
  case True
  then show ?thesis by (simp add: fl_def)
next
  case False
  define x :: rat where "x = of_int m * 2 powi e"
  have nz: "x \<noteq> 0" using False by (simp add: x_def)
  have lt: "(of_int \<bar>m\<bar> :: rat) < of_int (2 ^ 53)"
    using assms(1) by (simp only: of_int_less_iff)
  have "\<bar>x\<bar> = of_int \<bar>m\<bar> * 2 powi e"
    by (simp add: x_def abs_mult)
  also have "\<dots> < 2 ^ 53 * 2 powi e"
    using lt by simp
  also have "\<dots> = 2 powi (53 + e)"
    by (simp add: power_int_add)
  finally have bound: "\<bar>x\<bar> < 2 powi (53 + e)" .
  then have "exponent x < 53 + e"
    using nz by (intro exponent_less)
  moreover define q where "q = max (exponent x - 52) (- 1074)"
  ultimately have q: "q \<le> e"
    using assms(2) by simp
  define k where "k = nat (e - q)"
  have k: "int k = e - q" using q by (simp add: k_def)
  have "(2::rat) powi e = 2 powi (int k + q)"
    using k by simp
  also have "\<dots> = 2 ^ k * 2 powi q"
    by (simp add: power_int_add)
  finally have split: "(2::rat) powi e = 2 ^ k * 2 powi q" .
  have pos: "(2::rat) powi q \<noteq> 0" by simp
  have "x / 2 powi q = of_int m * 2 ^ k"
    using pos by (simp add: x_def split)
  also have "\<dots> = of_int (m * 2 ^ k)" by simp
  finally have "x / 2 powi q = of_int (m * 2 ^ k)" .
  then have r: "round_even (x / 2 powi q) = m * 2 ^ k"
    by (simp only: round_even_of_int)
  have "of_int (m * 2 ^ k) * 2 powi q = x"
    by (simp add: x_def split)
  then have y: "of_int (round_even (x / 2 powi q)) * 2 powi q = x"
    by (simp only: r)
  have "(2::rat) powi (53 + e) \<le> 2 powi 1024"
    using assms(3) by (intro power_int_increasing) simp_all
  then have small: "\<not> 2 ^ 1024 \<le> \<bar>x\<bar>"
    using bound by simp
  show ?thesis
    using nz small unfolding x_def [symmetric]
    by (simp add: fl_def Let_def q_def [symmetric] y)
qed

lemma fl_of_nat: "n < 2 ^ 53 \<Longrightarrow> fl (of_nat n) = Finite (of_nat n)"
proof -
  assume "n < 2 ^ 53"
  then have "int n < int (2 ^ 53)" by (simp only: of_nat_less_iff)
  then have "\<bar>int n\<bar> < 2 ^ 53" by simp
  then show ?thesis
    using fl_exact [of "int n" 0] by simp
qed

lemma fl_of_nat_div8: "n < 2 ^ 53 \<Longrightarrow> fl (of_nat n / 8) = Finite (of_nat n / 8)"
proof -
  assume "n < 2 ^ 53"
  then have "int n < int (2 ^ 53)" by (simp only: of_nat_less_iff)
  then have "\<bar>int n\<bar> < 2 ^ 53" by simp
  moreover have "(2::rat) powi (- 3) = 1 / 8"
    by (simp add: power_int_minus)
  ultimately show ?thesis
    using fl_exact [of "int n" "- 3"] by simp
qed

lemma double_of_nat_exact: "n < 2 ^ 53 \<Longrightarrow> double_of_nat n = Finite (of_nat n)"
  by (simp add: double_of_nat_def fl_of_nat)

lemma double_add_nat:
  "a + b < 2 ^ 53 \<Longrightarrow> double_add (Finite (of_nat a)) (Finite (of_nat b)) = Finite (of_nat (a + b))"
  using fl_of_nat [of "a + b"] by simp

lemma double_mul_nat:
  "a * b < 2 ^ 53 \<Longrightarrow> double_mul (Finite (of_nat a)) (Finite (of_nat b)) = Finite (of_nat (a * b))"
  using fl_of_nat [of "a * b"] by simp

lemma double_div_nat_8:
  "a < 2 ^ 53 \<Longrightarrow> double_div (Finite (of_nat a)) (Finite 8) = Finite (of_nat a / 8)"
  using fl_of_nat_div8 [of a] by simp

lemma double_mul_nat_eighth:
  "a * b < 2 ^ 53 \<Longrightarrow>
   double_mul (Finite (of_nat a)) (Finite (of_nat b / 8)) = Finite (of_nat (a * b) / 8)"
  using fl_of_nat_div8 [of "a * b"] by simp

section \<open>Properties of the container wrapper\<close>

lemma store_seq:
  "length pre = off \<Longrightarrow> length bs \<le> length rest \<Longrightarrow>
   store (pre @ rest) off bs = Inr ((pre @ bs) @ drop (length bs) rest)"
  by (simp add: store_def)

lemma length_le_bytes [simp]: "length (le_bytes n v) = n"
  by (induction n arbitrary: v) simp_all

lemma length_uint_bytes [simp]: "length (uint_bytes n x e) = n"
  by (simp add: uint_bytes_def Let_def)

lemma length_tag [simp]: "length (tag s) = length s"
  by (simp add: tag_def)

lemma uint_bytes_charCode: "uint_bytes (Suc 0) (charCode c) True = [of_nat (of_char c)]"
  by (simp add: uint_bytes_def charCode_def ToUint_def number_trunc_def)

lemma writeString_seq:
  "length pre = off \<Longrightarrow> length cs \<le> length rest \<Longrightarrow>
   writeString (pre @ rest) off cs = Inr ((pre @ tag cs) @ drop (length cs) rest)"
proof (induction cs arbitrary: pre off rest)
  case Nil
  then show ?case by (simp add: tag_def)
next
  case (Cons c cs)
  have 1: "setUint8 (pre @ rest) off (charCode c) =
      Inr ((pre @ [of_nat (of_char c)]) @ drop 1 rest)"
    using Cons.prems store_seq [of pre off "[of_nat (of_char c)]" rest]
    by (simp add: setUint8_def uint_bytes_charCode)
  have 2: "writeString ((pre @ [of_nat (of_char c)]) @ drop 1 rest) (Suc off) cs =
      Inr (((pre @ [of_nat (of_char c)]) @ tag cs) @ drop (length cs) (drop 1 rest))"
    using Cons.prems by (intro Cons.IH) simp_all
  show ?case
    using 1 2 by (simp add: and_then_def tag_def)
qed

lemma le_value_le_bytes: "le_value (le_bytes n v) = v mod 256 ^ n"
proof (induction n arbitrary: v)
  case 0
  then show ?case by simp
next
  case (Suc n)
  have "unat (of_nat (v mod 256) :: byte) = v mod 256"
    by (simp add: unat_of_nat)
  then show ?case
    using Suc.IH [of "v div 256"] by (simp add: mod_mult2_eq)
qed

lemma ToUint_of_nat: "ToUint w (Finite (of_nat k)) = k mod 2 ^ w"
  by (simp add: ToUint_def number_trunc_def nat_mod_distrib nat_power_eq)

lemma number_trunc_of_nat_div: "number_trunc (of_nat a / of_nat b) = int (a div b)"
  by (simp add: number_trunc_def floor_divide_of_nat_eq)

lemma ToUint_of_nat_div: "ToUint w (Finite (of_nat a / of_nat b)) = (a div b) mod 2 ^ w"
  by (simp add: ToUint_def number_trunc_of_nat_div nat_mod_distrib nat_power_eq)

lemma ToUint_of_nat_div8: "ToUint w (Finite (of_nat a / 8)) = (a div 8) mod 2 ^ w"
  using ToUint_of_nat_div [of w a 8] by simp

lemma setUint32_seq:
  "length pre = off \<Longrightarrow> 4 \<le> length rest \<Longrightarrow>
   setUint32 (pre @ rest) off x e = Inr ((pre @ uint_bytes 4 x e) @ drop 4 rest)"
  using store_seq [of pre off "uint_bytes 4 x e" rest] by (simp add: setUint32_def)

lemma setUint16_seq:
  "length pre = off \<Longrightarrow> 2 \<le> length rest \<Longrightarrow>
   setUint16 (pre @ rest) off x e = Inr ((pre @ uint_bytes 2 x e) @ drop 2 rest)"
  using store_seq [of pre off "uint_bytes 2 x e" rest] by (simp add: setUint16_def)

lemma writeString_zeros:
  "length pre = off \<Longrightarrow> length cs \<le> k \<Longrightarrow>
   writeString (pre @ replicate k 0) off cs = Inr ((pre @ tag cs) @ replicate (k - length cs) 0)"
  using writeString_seq [of pre off cs "replicate k 0"] by simp

lemma setUint32_zeros:
  "length pre = off \<Longrightarrow> 4 \<le> k \<Longrightarrow>
   setUint32 (pre @ replicate k 0) off x e = Inr ((pre @ uint_bytes 4 x e) @ replicate (k - 4) 0)"
  using setUint32_seq [of pre off "replicate k 0" x e] by simp

lemma setUint16_zeros:
  "length pre = off \<Longrightarrow> 2 \<le> k \<Longrightarrow>
   setUint16 (pre @ replicate k 0) off x e = Inr ((pre @ uint_bytes 2 x e) @ replicate (k - 2) 0)"
  using setUint16_seq [of pre off "replicate k 0" x e] by simp

lemma createWavFile_bytes:
  "createWavFile samples sampleRate numChannels bitDepth =
     Inr \<lparr>blob_bytes = wav_header (length samples) sampleRate numChannels bitDepth @ samples,
          blob_type = ''audio/wav''\<rparr>"
proof -
  define L where "L = length samples"
  define p1 where "p1 = tag ''RIFF''"
  define p2 where "p2 = p1 @ uint_bytes 4 (double_add (Finite 36) (double_of_nat L)) True"
  define p3 where "p3 = p2 @ tag ''WAVE''"
  define p4 where "p4 = p3 @ tag ''fmt ''"
  define p5 where "p5 = p4 @ uint_bytes 4 (Finite 16) True"
  define p6 where "p6 = p5 @ uint_bytes 2 (Finite 1) True"
  define p7 where "p7 = p6 @ uint_bytes 2 numChannels True"
  define p8 where "p8 = p7 @ uint_bytes 4 sampleRate True"
  define p9 where "p9 = p8 @ uint_bytes 4
    (double_mul (double_mul sampleRate numChannels) (double_div bitDepth (Finite 8))) True"
  define p10 where "p10 = p9 @ uint_bytes 2
    (double_mul numChannels (double_div bitDepth (Finite 8))) True"
  define p11 where "p11 = p10 @ uint_bytes 2 bitDepth True"
  define p12 where "p12 = p11 @ tag ''data''"
  define p13 where "p13 = p12 @ uint_bytes 4 (double_of_nat L) True"
  note defs = p1_def p2_def p3_def p4_def p5_def p6_def p7_def p8_def p9_def p10_def
    p11_def p12_def p13_def
  have len: "length p1 = 4" "length p2 = 8" "length p3 = 12" "length p4 = 16"
    "length p5 = 20" "length p6 = 22" "length p7 = 24" "length p8 = 28" "length p9 = 32"
    "length p10 = 34" "length p11 = 36" "length p12 = 40" "length p13 = 44"
    by (simp_all add: defs)
  have 1: "writeString (replicate (44 + L) 0) 0 ''RIFF'' = Inr (p1 @ replicate (40 + L) 0)"
    using writeString_zeros [of "[]" 0 "''RIFF''" "44 + L"]
    by (simp add: p1_def del: writeString.simps)
  have 2: "setUint32 (p1 @ replicate (40 + L) 0) 4
        (double_add (Finite 36) (double_of_nat L)) True =
      Inr (p2 @ replicate (36 + L) 0)"
    using setUint32_zeros [of p1 4 "40 + L"] by (simp add: len p2_def)
  have 3: "writeString (p2 @ replicate (36 + L) 0) 8 ''WAVE'' = Inr (p3 @ replicate (32 + L) 0)"
    using writeString_zeros [of p2 8 "''WAVE''" "36 + L"]
    by (simp add: len p3_def del: writeString.simps)
  have 4: "writeString (p3 @ replicate (32 + L) 0) 12 ''fmt '' = Inr (p4 @ replicate (28 + L) 0)"
    using writeString_zeros [of p3 12 "''fmt ''" "32 + L"]
    by (simp add: len p4_def del: writeString.simps)
  have 5: "setUint32 (p4 @ replicate (28 + L) 0) 16 (Finite 16) True =
      Inr (p5 @ replicate (24 + L) 0)"
    using setUint32_zeros [of p4 16 "28 + L"] by (simp add: len p5_def)
  have 6: "setUint16 (p5 @ replicate (24 + L) 0) 20 (Finite 1) True =
      Inr (p6 @ replicate (22 + L) 0)"
    using setUint16_zeros [of p5 20 "24 + L"] by (simp add: len p6_def)
  have 7: "setUint16 (p6 @ replicate (22 + L) 0) 22 numChannels True =
      Inr (p7 @ replicate (20 + L) 0)"
    using setUint16_zeros [of p6 22 "22 + L"] by (simp add: len p7_def)
  have 8: "setUint32 (p7 @ replicate (20 + L) 0) 24 sampleRate True =
      Inr (p8 @ replicate (16 + L) 0)"
    using setUint32_zeros [of p7 24 "20 + L"] by (simp add: len p8_def)
  have 9: "setUint32 (p8 @ replicate (16 + L) 0) 28
        (double_mul (double_mul sampleRate numChannels) (double_div bitDepth (Finite 8))) True =
      Inr (p9 @ replicate (12 + L) 0)"
    using setUint32_zeros [of p8 28 "16 + L"] by (simp add: len p9_def)
  have 10: "setUint16 (p9 @ replicate (12 + L) 0) 32
        (double_mul numChannels (double_div bitDepth (Finite 8))) True =
      Inr (p10 @ replicate (10 + L) 0)"
    using setUint16_zeros [of p9 32 "12 + L"] by (simp add: len p10_def)
  have 11: "setUint16 (p10 @ replicate (10 + L) 0) 34 bitDepth True =
      Inr (p11 @ replicate (8 + L) 0)"
    using setUint16_zeros [of p10 34 "10 + L"] by (simp add: len p11_def)
  have 12: "writeString (p11 @ replicate (8 + L) 0) 36 ''data'' = Inr (p12 @ replicate (4 + L) 0)"
    using writeString_zeros [of p11 36 "''data''" "8 + L"]
    by (simp add: len p12_def del: writeString.simps)
  have 13: "setUint32 (p12 @ replicate (4 + L) 0) 40 (double_of_nat L) True =
      Inr (p13 @ replicate L 0)"
    using setUint32_zeros [of p12 40 "4 + L"] by (simp add: len p13_def)
  have 14: "set_at (p13 @ replicate L 0) 44 samples = Inr (p13 @ samples)"
    by (simp add: set_at_def store_def len L_def)
  have hdr: "wav_header L sampleRate numChannels bitDepth = p13"
    by (simp add: wav_header_def defs)
  show ?thesis
    unfolding createWavFile_def Let_def L_def [symmetric] hdr
    by (simp only: 1 2 3 4 5 6 7 8 9 10 11 12 13 14 and_then_def sum.case)
qed


lemma ToUint_less: "ToUint w x < 2 ^ w"
proof (cases x)
  case (Finite r)
  have "number_trunc r mod 2 ^ w < 2 ^ w" by simp
  then show ?thesis
    unfolding ToUint_def Finite by (simp add: nat_less_iff)
qed (simp_all add: ToUint_def)

lemma le_value_uint_bytes: "le_value (uint_bytes n x True) = ToUint (8 * n) x"
proof -
  have "ToUint (8 * n) x < 256 ^ n"
    using ToUint_less [of "8 * n" x] by (simp add: power_mult)
  then show ?thesis
    by (simp add: uint_bytes_def le_value_le_bytes)
qed

lemma field_wav_header:
  fixes len :: nat and sr nc bd :: double and samples :: "byte list"
  defines "bytes \<equiv> wav_header len sr nc bd @ samples"
  shows "length bytes = 44 + length samples"
    and "take 4 bytes = tag ''RIFF''"
    and "field bytes 4 4 = ToUint 32 (double_add (Finite 36) (double_of_nat len))"
    and "take 4 (drop 8 bytes) = tag ''WAVE''"
    and "take 4 (drop 12 bytes) = tag ''fmt ''"
    and "field bytes 16 4 = ToUint 32 (Finite 16)"
    and "field bytes 20 2 = ToUint 16 (Finite 1)"
    and "field bytes 22 2 = ToUint 16 nc"
    and "field bytes 24 4 = ToUint 32 sr"
    and "field bytes 28 4 =
      ToUint 32 (double_mul (double_mul sr nc) (double_div bd (Finite 8)))"
    and "field bytes 32 2 = ToUint 16 (double_mul nc (double_div bd (Finite 8)))"
    and "field bytes 34 2 = ToUint 16 bd"
    and "take 4 (drop 36 bytes) = tag ''data''"
    and "field bytes 40 4 = ToUint 32 (double_of_nat len)"
    and "drop 44 bytes = samples"
  unfolding bytes_def wav_header_def field_def
  using le_value_uint_bytes [of 4] le_value_uint_bytes [of 2]
  by simp_all

text \<open>
  The header of a call with whole numbers that fit their fields: every product is exact,
  and every field holds the number itself.
\<close>

lemma wav_fields_exact:
  fixes samples :: "byte list" and sr ch bd :: nat
  defines "bytes \<equiv> wav_header (length samples) (Finite (of_nat sr)) (Finite (of_nat ch))
    (Finite (of_nat bd)) @ samples"
  assumes len: "length samples < 2 ^ 32"
    and sr: "sr < 2 ^ 32" and ch: "ch < 2 ^ 16" and bd: "bd < 2 ^ 16"
    and whole: "8 dvd ch * bd"
    and align: "ch * bd div 8 < 2 ^ 16"
    and rate: "sr * ch * bd div 8 < 2 ^ 32"
  shows "field bytes 16 4 = 16"
    and "field bytes 20 2 = 1"
    and "field bytes 22 2 = ch"
    and "field bytes 24 4 = sr"
    and "field bytes 28 4 = sr * ch * bd div 8"
    and "field bytes 32 2 = ch * bd div 8"
    and "field bytes 34 2 = bd"
    and "field bytes 40 4 = length samples"
proof -
  note f = field_wav_header [of "length samples" "Finite (of_nat sr)" "Finite (of_nat ch)"
      "Finite (of_nat bd)" samples, folded bytes_def]
  have L: "length samples < 2 ^ 53"
    using len by simp
  have "sr * ch < 2 ^ 32 * 2 ^ 16"
    using sr ch by (intro mult_strict_mono) simp_all
  then have m1: "sr * ch < 2 ^ 53" by simp
  have "ch * bd < 2 ^ 16 * 2 ^ 16"
    using ch bd by (intro mult_strict_mono) simp_all
  then have m2: "ch * bd < 2 ^ 53" by simp
  have "sr * (ch * bd) = 8 * (sr * (ch * bd div 8))"
    using whole by simp
  also have "sr * (ch * bd div 8) = sr * ch * bd div 8"
    using whole by (simp add: div_mult_swap mult.assoc)
  finally have "sr * ch * bd = 8 * (sr * ch * bd div 8)"
    by (simp add: mult.assoc)
  then have m3: "sr * ch * bd < 2 ^ 53"
    using rate by simp
  have d: "double_div (Finite (of_nat bd)) (Finite 8) = Finite (of_nat bd / 8)"
    using bd by (intro double_div_nat_8) simp
  have r: "double_mul (double_mul (Finite (of_nat sr)) (Finite (of_nat ch)))
        (double_div (Finite (of_nat bd)) (Finite 8)) = Finite (of_nat (sr * ch * bd) / 8)"
    unfolding double_mul_nat [OF m1] d by (rule double_mul_nat_eighth [OF m3])
  have b: "double_mul (Finite (of_nat ch)) (double_div (Finite (of_nat bd)) (Finite 8)) =
      Finite (of_nat (ch * bd) / 8)"
    unfolding d by (rule double_mul_nat_eighth [OF m2])
  have c16: "ToUint 32 (Finite 16) = 16" "ToUint 16 (Finite 1) = 1"
    using ToUint_of_nat [of 32 16] ToUint_of_nat [of 16 1] by simp_all
  show "field bytes 16 4 = 16" "field bytes 20 2 = 1"
    by (simp_all only: f c16)
  show "field bytes 22 2 = ch" "field bytes 24 4 = sr" "field bytes 34 2 = bd"
    using sr ch bd by (simp_all only: f ToUint_of_nat mod_less)
  show "field bytes 28 4 = sr * ch * bd div 8"
    using rate by (simp only: f r ToUint_of_nat_div8 mod_less)
  show "field bytes 32 2 = ch * bd div 8"
    using align by (simp only: f b ToUint_of_nat_div8 mod_less)
  show "field bytes 40 4 = length samples"
    using len L by (simp add: f double_of_nat_exact ToUint_of_nat)
qed

lemma wav_chunk_size_exact:
  assumes "36 + length samples < 2 ^ 32"
  shows "field (wav_header (length samples) sr ch bd @ samples) 4 4 = 36 + length samples"
proof -
  have L: "length samples < 2 ^ 53" "36 + length samples < 2 ^ 53"
    using assms by simp_all
  have "double_add (Finite 36) (double_of_nat (length samples)) =
      Finite (of_nat (36 + length samples))"
    using double_add_nat [of 36 "length samples"] L by (simp add: double_of_nat_exact)
  then show ?thesis
    using assms by (simp only: field_wav_header ToUint_of_nat mod_less)
qed

text \<open>
  Above \<open>2 ^ 53\<close> the products are rounded before they are stored, as the program's are:
  \<open>94906267 * 94906267\<close> is odd and lies half-way between two doubles.
\<close>

lemma double_mul_rounds:
  "double_mul (Finite 94906267) (Finite 94906267) = Finite 9007199515875288"
proof -
  have f: "\<lfloor>(9007199515875289::rat) / 2\<rfloor> = 4503599757937644"
    using floor_divide_of_int_eq [of 9007199515875289 2, where ?'a = rat] by simp
  have e: "exponent 9007199515875289 = 53"
    by (simp add: exponent_def floor_log2.simps)
  have r: "round_even (9007199515875289 / 2) = 4503599757937644"
    by (simp add: round_even_def f Let_def)
  show ?thesis
    by (simp add: fl_def e r Let_def)
qed

lemma byte_rate_rounded:
  "ToUint 32 (double_mul (double_mul (Finite 94906267) (Finite 94906267))
     (double_div (Finite 8) (Finite 8))) = 261134296"
proof -
  have d: "double_div (Finite 8) (Finite 8) = Finite 1"
    using fl_of_nat [of 1] by simp
  have m: "double_mul (Finite 9007199515875288) (Finite 1) = Finite 9007199515875288"
    using fl_exact [of 1125899939484411 3] by simp
  have "ToUint 32 (Finite 9007199515875288) = 9007199515875288 mod 2 ^ 32"
    using ToUint_of_nat [of 32 9007199515875288] by simp
  then show ?thesis
    unfolding double_mul_rounds d m by simp
qed

section \<open>Properties of the audio module\<close>

subsection \<open>Frame lemmas\<close>

lemma update_entry_frame [simp]:
  "audioContext (update_entry f i s) = audioContext s"
  "masterGainNode (update_entry f i s) = masterGainNode s"
  "activeSources (update_entry f i s) = activeSources s"
  "fadeTimeout (update_entry f i s) = fadeTimeout s"
  "next_entry (update_entry f i s) = next_entry s"
  "timers (update_entry f i s) = timers s"
  "next_timer (update_entry f i s) = next_timer s"
  "console (update_entry f i s) = console s"
  by (simp_all add: update_entry_def split: option.splits)

lemma update_entry_entries:
  "entries (update_entry f i s) j = (if j = i then map_option f (entries s i) else entries s j)"
  by (simp add: update_entry_def split: option.splits)

lemma fold_update_entry_frame [simp]:
  "audioContext (fold (update_entry f) is s) = audioContext s"
  "masterGainNode (fold (update_entry f) is s) = masterGainNode s"
  "activeSources (fold (update_entry f) is s) = activeSources s"
  "fadeTimeout (fold (update_entry f) is s) = fadeTimeout s"
  "next_entry (fold (update_entry f) is s) = next_entry s"
  "timers (fold (update_entry f) is s) = timers s"
  "next_timer (fold (update_entry f) is s) = next_timer s"
  "console (fold (update_entry f) is s) = console s"
  by (induction "is" arbitrary: s; simp)+

lemma fold_update_entry_dom:
  "(entries (fold (update_entry f) is s) j = None) = (entries s j = None)"
  by (induction "is" arbitrary: s) (simp_all add: update_entry_entries)

lemma fold_update_entry_other:
  "j \<notin> set is \<Longrightarrow> entries (fold (update_entry f) is s) j = entries s j"
  by (induction "is" arbitrary: s) (simp_all add: update_entry_entries)

lemma fold_update_entry_idem:
  assumes "\<And>en. f (f en) = f en"
  shows "entries (fold (update_entry f) is s) j =
    (if j \<in> set is then map_option f (entries s j) else entries s j)"
proof (induction "is" arbitrary: s)
  case Nil
  show ?case by simp
next
  case (Cons i "is")
  show ?case
    using assms by (cases "entries s j") (auto simp: Cons.IH update_entry_entries)
qed

lemma stop_entry_idem: "stop_entry (stop_entry en) = stop_entry en"
  by (simp add: stop_entry_def source_stop_def cancelScheduledValues_def Let_def)

lemma stop_entry_effect:
  "src_status (source (stop_entry en)) \<noteq> Playing"
  "src_status (source (stop_entry en)) =
     (if src_status (source en) = Playing then Stopped else src_status (source en))"
  "gain_events (gain (stop_entry en)) = filter (\<lambda>ev. event_time ev < 0) (gain_events (gain en))"
  "gain_value (gain (stop_entry en)) = gain_value (gain en)"
  "src_buffer (source (stop_entry en)) = src_buffer (source en)"
  by (simp_all add: stop_entry_def source_stop_def cancelScheduledValues_def Let_def)

subsection \<open>cancel fade, stopAllSounds\<close>

lemma cancel_fade_frame [simp]:
  "audioContext (cancel_fade s) = audioContext s"
  "masterGainNode (cancel_fade s) = masterGainNode s"
  "activeSources (cancel_fade s) = activeSources s"
  "entries (cancel_fade s) = entries s"
  "next_entry (cancel_fade s) = next_entry s"
  "next_timer (cancel_fade s) = next_timer s"
  "console (cancel_fade s) = console s"
  by (simp_all add: cancel_fade_def clearTimeout_def split: option.splits)

lemma cancel_fade_tracked:
  "fade_tracked s \<Longrightarrow> timers (cancel_fade s) = [] \<and> fadeTimeout (cancel_fade s) = None"
  by (cases "timers s"; cases "fadeTimeout s")
    (auto simp: fade_tracked_def cancel_fade_def clearTimeout_def)

lemma stopAllSounds_frame [simp]:
  "audioContext (stopAllSounds s) = audioContext s"
  "masterGainNode (stopAllSounds s) = masterGainNode s"
  "next_entry (stopAllSounds s) = next_entry s"
  "next_timer (stopAllSounds s) = next_timer s"
  "console (stopAllSounds s) = console s"
  by (simp_all add: stopAllSounds_def Let_def)

lemma stopAllSounds_registry [simp]: "activeSources (stopAllSounds s) = []"
  by (simp add: stopAllSounds_def Let_def)

lemma stopAllSounds_timers:
  "timers (stopAllSounds s) = timers (cancel_fade s)"
  "fadeTimeout (stopAllSounds s) = fadeTimeout (cancel_fade s)"
  by (simp_all add: stopAllSounds_def Let_def)

lemma stopAllSounds_entries:
  "entries (stopAllSounds s) i =
     (if i \<in> set (activeSources s) then map_option stop_entry (entries s i) else entries s i)"
  by (simp add: stopAllSounds_def Let_def fold_update_entry_idem [OF stop_entry_idem])

lemma stopAllSounds_tracked:
  "fade_tracked s \<Longrightarrow> timers (stopAllSounds s) = [] \<and> fadeTimeout (stopAllSounds s) = None"
  by (simp add: stopAllSounds_timers cancel_fade_tracked)

lemma fade_tracked_stopAllSounds: "fade_tracked s \<Longrightarrow> fade_tracked (stopAllSounds s)"
  using stopAllSounds_tracked [of s] by (simp add: fade_tracked_def)


subsection \<open>getAudioContext\<close>

lemma getAudioContext_frame [simp]:
  "activeSources (snd (getAudioContext s)) = activeSources s"
  "fadeTimeout (snd (getAudioContext s)) = fadeTimeout s"
  "entries (snd (getAudioContext s)) = entries s"
  "next_entry (snd (getAudioContext s)) = next_entry s"
  "timers (snd (getAudioContext s)) = timers s"
  "next_timer (snd (getAudioContext s)) = next_timer s"
  "console (snd (getAudioContext s)) = console s"
  by (simp_all add: getAudioContext_def Let_def split: option.splits)

lemma getAudioContext_ctx [simp]:
  "audioContext (snd (getAudioContext s)) = Some (fst (getAudioContext s))"
  by (simp add: getAudioContext_def Let_def split: option.splits)

lemma getAudioContext_exists:
  "audioContext s = Some ctx \<Longrightarrow> getAudioContext s = (ctx, s)"
  by (simp add: getAudioContext_def)

lemma getAudioContext_same: "audioContext s \<noteq> None \<Longrightarrow> snd (getAudioContext s) = s"
  by (auto simp: getAudioContext_def)

lemma getAudioContext_master:
  "master_ready s \<Longrightarrow> masterGainNode (snd (getAudioContext s)) \<noteq> None"
  by (auto simp: getAudioContext_def master_ready_def Let_def split: option.splits)

lemma getAudioContext_master_eq:
  "masterGainNode (snd (getAudioContext s)) =
     (if audioContext s = None
      then Some \<lparr>gain_value = 1, gain_events = [], gain_output = Some Destination\<rparr>
      else masterGainNode s)"
  by (auto simp: getAudioContext_def Let_def split: option.splits)

lemma fade_tracked_cong:
  "timers s' = timers s \<Longrightarrow> fadeTimeout s' = fadeTimeout s \<Longrightarrow> next_timer s' = next_timer s \<Longrightarrow>
   fade_tracked s' = fade_tracked s"
  by (simp add: fade_tracked_def)

lemma registry_ok_cong:
  "activeSources s' = activeSources s \<Longrightarrow> next_entry s' = next_entry s \<Longrightarrow>
   (\<And>i. (entries s' i = None) = (entries s i = None)) \<Longrightarrow>
   (audioContext s' = None) = (audioContext s = None) \<Longrightarrow>
   registry_ok s' = registry_ok s"
  by (simp add: registry_ok_def)

lemma fade_tracked_getAudioContext:
  "fade_tracked (snd (getAudioContext s)) = fade_tracked s"
  by (rule fade_tracked_cong) simp_all

lemma master_ready_getAudioContext:
  "master_ready s \<Longrightarrow> master_ready (snd (getAudioContext s))"
  by (auto simp: master_ready_def getAudioContext_master_eq)

lemma registry_ok_getAudioContext:
  "registry_ok s \<Longrightarrow> registry_ok (snd (getAudioContext s))"
  by (simp add: registry_ok_def)

lemma inv_getAudioContext: "module_inv s \<Longrightarrow> module_inv (snd (getAudioContext s))"
  by (simp add: module_inv_def fade_tracked_getAudioContext master_ready_getAudioContext
      registry_ok_getAudioContext)

lemma inv_stopAllSounds: "module_inv s \<Longrightarrow> module_inv (stopAllSounds s)"
  by (simp add: module_inv_def fade_tracked_stopAllSounds master_ready_def registry_ok_def)

lemma inv_initial: "module_inv initial_state"
  by (simp add: module_inv_def fade_tracked_def master_ready_def registry_ok_def initial_state_def)

lemma setMasterVolume_frame [simp]:
  "activeSources (setMasterVolume v s) = activeSources s"
  "fadeTimeout (setMasterVolume v s) = fadeTimeout s"
  "entries (setMasterVolume v s) = entries s"
  "next_entry (setMasterVolume v s) = next_entry s"
  "timers (setMasterVolume v s) = timers s"
  "next_timer (setMasterVolume v s) = next_timer s"
  "console (setMasterVolume v s) = console s"
  "audioContext (setMasterVolume v s) = Some (fst (getAudioContext s))"
  by (simp_all add: setMasterVolume_def getAudioContext_def Let_def split: option.splits)

lemma setMasterVolume_master:
  "masterGainNode (setMasterVolume v s) =
     map_option (setTargetAtTime v (currentTime (fst (getAudioContext s))) (2 / 100))
       (masterGainNode (snd (getAudioContext s)))"
  by (simp add: setMasterVolume_def getAudioContext_def Let_def split: option.splits)

lemma inv_setMasterVolume: "module_inv s \<Longrightarrow> module_inv (setMasterVolume v s)"
proof -
  assume a: "module_inv s"
  have "fade_tracked (setMasterVolume v s) = fade_tracked s"
    by (rule fade_tracked_cong) simp_all
  moreover have "registry_ok s \<Longrightarrow> registry_ok (setMasterVolume v s)"
    by (simp add: registry_ok_def)
  moreover have "master_ready s \<Longrightarrow> master_ready (setMasterVolume v s)"
    using getAudioContext_master [of s] by (auto simp: master_ready_def setMasterVolume_master)
  ultimately show ?thesis using a by (simp add: module_inv_def)
qed


subsection \<open>fadeOutAllSounds\<close>

lemma getAudioContext_cases:
  obtains ctx s1 where "getAudioContext s = (ctx, s1)"
    and "activeSources s1 = activeSources s" and "fadeTimeout s1 = fadeTimeout s"
    and "entries s1 = entries s" and "next_entry s1 = next_entry s"
    and "timers s1 = timers s" and "next_timer s1 = next_timer s"
    and "console s1 = console s" and "audioContext s1 = Some ctx"
proof -
  obtain ctx s1 where g: "getAudioContext s = (ctx, s1)" by (cases "getAudioContext s")
  show ?thesis
    using getAudioContext_frame [of s] getAudioContext_ctx [of s]
    by (intro that [of ctx s1]) (simp_all add: g)
qed

lemma fadeOutAllSounds_empty:
  "activeSources s = [] \<Longrightarrow> fadeOutAllSounds d s = snd (getAudioContext s)"
  by (simp add: fadeOutAllSounds_def split_beta)

lemma fadeOutAllSounds_short:
  "activeSources s \<noteq> [] \<Longrightarrow> d \<le> 5 / 100 \<Longrightarrow>
   fadeOutAllSounds d s = stopAllSounds (snd (getAudioContext s))"
  by (simp add: fadeOutAllSounds_def split_beta)

lemma fadeOutAllSounds_long:
  assumes "activeSources s \<noteq> []" "\<not> d \<le> 5 / 100"
  shows "timers (fadeOutAllSounds d s) = timers (cancel_fade s) @ [(next_timer s, d * 1000)]"
    and "fadeTimeout (fadeOutAllSounds d s) = Some (next_timer s)"
    and "next_timer (fadeOutAllSounds d s) = Suc (next_timer s)"
    and "activeSources (fadeOutAllSounds d s) = activeSources s"
    and "next_entry (fadeOutAllSounds d s) = next_entry s"
    and "audioContext (fadeOutAllSounds d s) = Some (fst (getAudioContext s))"
    and "masterGainNode (fadeOutAllSounds d s) = masterGainNode (snd (getAudioContext s))"
    and "console (fadeOutAllSounds d s) = console s"
    and "(entries (fadeOutAllSounds d s) i = None) = (entries s i = None)"
proof -
  obtain ctx s1 where g: "getAudioContext s = (ctx, s1)"
    and fr: "activeSources s1 = activeSources s" "fadeTimeout s1 = fadeTimeout s"
      "entries s1 = entries s" "next_entry s1 = next_entry s"
      "timers s1 = timers s" "next_timer s1 = next_timer s"
      "console s1 = console s" "audioContext s1 = Some ctx"
    by (rule getAudioContext_cases [of s])
  have t: "timers (cancel_fade s1) = timers (cancel_fade s)"
    by (simp add: cancel_fade_def clearTimeout_def fr split: option.splits)
  note u = fadeOutAllSounds_def g Let_def setTimeout_def fold_update_entry_dom
  show "timers (fadeOutAllSounds d s) = timers (cancel_fade s) @ [(next_timer s, d * 1000)]"
    using assms t by (simp add: u fr)
  show "fadeTimeout (fadeOutAllSounds d s) = Some (next_timer s)"
    using assms by (simp add: u fr)
  show "next_timer (fadeOutAllSounds d s) = Suc (next_timer s)"
    using assms by (simp add: u fr)
  show "activeSources (fadeOutAllSounds d s) = activeSources s"
    using assms by (simp add: u fr)
  show "next_entry (fadeOutAllSounds d s) = next_entry s"
    using assms by (simp add: u fr)
  show "audioContext (fadeOutAllSounds d s) = Some (fst (getAudioContext s))"
    using assms by (simp add: u fr)
  show "masterGainNode (fadeOutAllSounds d s) = masterGainNode (snd (getAudioContext s))"
    using assms by (simp add: u fr)
  show "console (fadeOutAllSounds d s) = console s"
    using assms by (simp add: u fr)
  show "(entries (fadeOutAllSounds d s) i = None) = (entries s i = None)"
    using assms by (simp add: u fr)
qed

lemma inv_fadeOutAllSounds: "module_inv s \<Longrightarrow> module_inv (fadeOutAllSounds d s)"
proof -
  assume a: "module_inv s"
  consider "activeSources s = []" | "activeSources s \<noteq> []" "d \<le> 5 / 100"
    | "activeSources s \<noteq> []" "\<not> d \<le> 5 / 100" by blast
  then show ?thesis
  proof cases
    case 1
    then show ?thesis using a by (simp add: fadeOutAllSounds_empty inv_getAudioContext)
  next
    case 2
    then show ?thesis
      using a by (simp add: fadeOutAllSounds_short inv_getAudioContext inv_stopAllSounds)
  next
    case 3
    note f = fadeOutAllSounds_long [OF 3]
    have c: "timers (cancel_fade s) = []"
      using a cancel_fade_tracked [of s] by (simp add: module_inv_def)
    have 1: "fade_tracked (fadeOutAllSounds d s)"
      using a by (simp add: fade_tracked_def f c module_inv_def)
    have 2: "master_ready (fadeOutAllSounds d s)"
      using a getAudioContext_master [of s] by (auto simp: master_ready_def f module_inv_def)
    have 3: "registry_ok (fadeOutAllSounds d s)"
      using a by (simp add: registry_ok_def f module_inv_def)
    show ?thesis using 1 2 3 by (simp add: module_inv_def)
  qed
qed

subsection \<open>timers firing, sources ending, time passing\<close>

lemma fade_tracked_clearTimeout: "fade_tracked s \<Longrightarrow> fade_tracked (clearTimeout h s)"
  by (cases "timers s") (auto simp: fade_tracked_def clearTimeout_def)

lemma inv_timer_fired: "module_inv s \<Longrightarrow> module_inv (timer_fired h s)"
proof -
  assume a: "module_inv s"
  have "module_inv (clearTimeout h s)"
    using a fade_tracked_clearTimeout [of s h]
    by (simp add: module_inv_def) (simp add: clearTimeout_def master_ready_def registry_ok_def)
  then show ?thesis
    using a by (simp add: timer_fired_def inv_stopAllSounds)
qed

lemma inv_source_ended: "module_inv s \<Longrightarrow> module_inv (source_ended i s)"
proof -
  assume a: "module_inv s"
  have l: "length (removeAll i (activeSources s)) \<le> length (activeSources s)"
    by simp
  show ?thesis
  proof (cases "entries s i")
    case None
    then show ?thesis using a by (simp add: source_ended_def)
  next
    case (Some en)
    show ?thesis
    proof (cases "src_status (source en) = Unstarted")
      case True
      then show ?thesis using a Some by (simp add: source_ended_def)
    next
      case False
      have 1: "fade_tracked (source_ended i s) = fade_tracked s"
        by (rule fade_tracked_cong) (simp_all add: source_ended_def Some False Let_def)
      have 2: "master_ready (source_ended i s) = master_ready s"
        by (simp add: master_ready_def source_ended_def Some False Let_def)
      have 3: "registry_ok (source_ended i s)"
        using a l Some unfolding module_inv_def registry_ok_def
        by (cases "activeSources s")
          (auto simp: source_ended_def False Let_def set_delete_def list_all_iff)
      show ?thesis using a 1 2 3 by (simp add: module_inv_def)
    qed
  qed
qed

lemma inv_advance: "module_inv s \<Longrightarrow> module_inv (step (Advance dt) s)"
  by (cases "audioContext s")
    (auto simp: module_inv_def fade_tracked_def master_ready_def registry_ok_def)


subsection \<open>playAudioBlob\<close>

lemma play_begin_frame [simp]:
  "activeSources (fst (play_begin env s)) = activeSources s"
  "fadeTimeout (fst (play_begin env s)) = fadeTimeout s"
  "entries (fst (play_begin env s)) = entries s"
  "next_entry (fst (play_begin env s)) = next_entry s"
  "timers (fst (play_begin env s)) = timers s"
  "next_timer (fst (play_begin env s)) = next_timer s"
  "console (fst (play_begin env s)) = console s"
  "masterGainNode (fst (play_begin env s)) = masterGainNode (snd (getAudioContext s))"
  by (simp_all add: play_begin_def split_beta split: option.splits)

lemma play_begin_error:
  "snd (play_begin env s) =
     (if state (fst (getAudioContext s)) = Suspended then resume_error env else None)"
  by (simp add: play_begin_def split_beta split: option.splits)

lemma play_begin_ctx: "audioContext (fst (play_begin env s)) \<noteq> None"
  by (simp add: play_begin_def split_beta split: option.splits)

lemma inv_play_begin: "module_inv s \<Longrightarrow> module_inv (fst (play_begin env s))"
proof -
  assume a: "module_inv s"
  have 1: "fade_tracked (fst (play_begin env s)) = fade_tracked s"
    by (rule fade_tracked_cong) simp_all
  have 2: "master_ready (fst (play_begin env s))"
    using a getAudioContext_master [of s] by (auto simp: master_ready_def module_inv_def)
  have 3: "registry_ok (fst (play_begin env s))"
    using a play_begin_ctx [of env s] by (simp add: registry_ok_def module_inv_def)
  show ?thesis using a 1 2 3 by (simp add: module_inv_def)
qed

lemma play_catch_frame [simp]:
  "activeSources (play_catch e s) = activeSources s"
  "fadeTimeout (play_catch e s) = fadeTimeout s"
  "entries (play_catch e s) = entries s"
  "next_entry (play_catch e s) = next_entry s"
  "timers (play_catch e s) = timers s"
  "next_timer (play_catch e s) = next_timer s"
  "audioContext (play_catch e s) = audioContext s"
  "masterGainNode (play_catch e s) = masterGainNode s"
  "console (play_catch e s) = console s @ [(''Error playing audio:'', e)]"
  by (simp_all add: play_catch_def)

lemma inv_play_catch: "module_inv s \<Longrightarrow> module_inv (play_catch e s)"
  by (simp add: module_inv_def fade_tracked_def master_ready_def registry_ok_def)

lemma play_finish_frame [simp]:
  "audioContext (fst (play_finish env b v s)) = audioContext s"
  "masterGainNode (fst (play_finish env b v s)) = masterGainNode s"
  "timers (fst (play_finish env b v s)) = timers (cancel_fade s)"
  "fadeTimeout (fst (play_finish env b v s)) = fadeTimeout (cancel_fade s)"
  "next_timer (fst (play_finish env b v s)) = next_timer s"
  "console (fst (play_finish env b v s)) = console s"
  by (simp_all add: play_finish_def Let_def stopAllSounds_timers split: option.splits)

lemma play_finish_registry:
  "activeSources (fst (play_finish env b v s)) =
     (if create_error env = None then [next_entry s] else [])"
  "next_entry (fst (play_finish env b v s)) =
     (if create_error env = None then Suc (next_entry s) else next_entry s)"
  by (simp_all add: play_finish_def Let_def set_add_def split: option.splits)

lemma play_finish_new_entry:
  "create_error env = None \<Longrightarrow>
   entries (fst (play_finish env b v s)) (next_entry s) =
     Some \<lparr>source = \<lparr>src_buffer = Some b,
              src_status = (if start_error env = None then Playing else Unstarted)\<rparr>,
           gain = \<lparr>gain_value = v, gain_events = [],
              gain_output = Some (if masterGainNode s \<noteq> None then MasterGain else Destination)\<rparr>\<rparr>"
  by (simp add: play_finish_def Let_def update_entry_def split: option.splits)

lemma play_finish_old_entry:
  "i \<noteq> next_entry s \<Longrightarrow>
   entries (fst (play_finish env b v s)) i = entries (stopAllSounds s) i"
  by (simp add: play_finish_def Let_def update_entry_def split: option.splits)

lemma play_finish_error:
  "snd (play_finish env b v s) =
     (case create_error env of Some e \<Rightarrow> Some e | None \<Rightarrow> start_error env)"
  by (simp add: play_finish_def Let_def split: option.splits)

lemma inv_play_finish:
  assumes "module_inv s" "audioContext s \<noteq> None"
  shows "module_inv (fst (play_finish env b v s))"
proof -
  have c: "timers (cancel_fade s) = []" "fadeTimeout (cancel_fade s) = None"
    using assms cancel_fade_tracked [of s] by (simp_all add: module_inv_def)
  have 1: "fade_tracked (fst (play_finish env b v s))"
    using assms by (simp add: fade_tracked_def c module_inv_def)
  have 2: "master_ready (fst (play_finish env b v s))"
    using assms by (simp add: master_ready_def module_inv_def)
  have 3: "registry_ok (fst (play_finish env b v s))"
    using assms
    by (simp add: registry_ok_def play_finish_registry play_finish_new_entry module_inv_def)
  show ?thesis using 1 2 3 by (simp add: module_inv_def)
qed

lemma playAudioBlob_cases:
  "snd (playAudioBlob env blob v s) =
     (case snd (play_begin env s) of
        Some e \<Rightarrow> play_catch e (fst (play_begin env s))
      | None \<Rightarrow>
          (case decodeAudioData env (blob_bytes blob) of
             Inl e \<Rightarrow> play_catch e (fst (play_begin env s))
           | Inr b \<Rightarrow>
               (case snd (play_finish env b v (fst (play_begin env s))) of
                  Some e \<Rightarrow> play_catch e (fst (play_finish env b v (fst (play_begin env s))))
                | None \<Rightarrow> fst (play_finish env b v (fst (play_begin env s))))))"
  by (simp add: playAudioBlob_def split_beta split: prod.splits option.splits sum.splits)

lemma playAudioBlob_resolved: "fst (playAudioBlob env blob v s) = Resolved ()"
  by (simp add: playAudioBlob_def split: prod.splits option.splits sum.splits)

lemma inv_playAudioBlob: "module_inv s \<Longrightarrow> module_inv (snd (playAudioBlob env blob v s))"
  using play_begin_ctx [of env s]
  by (simp add: playAudioBlob_cases inv_play_begin inv_play_catch inv_play_finish
      split: option.splits sum.splits)

lemma inv_step: "module_inv s \<Longrightarrow> module_inv (step ev s)"
  by (cases ev)
    (simp_all add: inv_playAudioBlob inv_play_begin inv_play_finish inv_play_catch
      inv_stopAllSounds inv_fadeOutAllSounds inv_setMasterVolume inv_source_ended
      inv_timer_fired inv_advance del: step.simps(10))

lemma inv_fold: "module_inv s \<Longrightarrow> module_inv (fold step evs s)"
  by (induction evs arbitrary: s) (simp_all add: inv_step)

lemma inv_run: "module_inv (run evs)"
  by (simp add: run_def inv_fold inv_initial)

section \<open>Sample runs\<close>

lemma playing_state:
  "activeSources playing = [0]" "next_entry playing = 1" "timers playing = []"
  "fadeTimeout playing = None" "console playing = []"
  "audioContext playing = Some \<lparr>state = Running, currentTime = 0\<rparr>"
  by code_simp+

lemma fading_state:
  "activeSources fading = [0]" "timers fading = [(1, 5000)]" "fadeTimeout fading = Some 1"
  "next_timer fading = 2"
  by code_simp+

lemma faded_out_state:
  "activeSources faded_out = []" "timers faded_out = [(1, 5000)]"
  "fadeTimeout faded_out = Some 1"
  "audioContext faded_out = Some \<lparr>state = Running, currentTime = 0\<rparr>"
  by code_simp+

lemma unstarted_state:
  "activeSources unstarted = [0]" "timers unstarted = [(1, 5000)]"
  "fadeTimeout unstarted = Some 1"
  "map_option (\<lambda>en. source_stop (source en)) (entries unstarted 0) = Some (Inl InvalidStateError)"
  "map_option (\<lambda>en. src_status (source en)) (entries unstarted 0) = Some Unstarted"
  by code_simp+

section \<open>The claims\<close>

text \<open>
  C1 (solo invariant). In every state a run of the event loop can reach, at most one entry
  is registered. When the last part of a \<open>playAudioBlob\<close> call has run in such a state
  (the solo enforcement, the creation of the voice, its registration and its start), the
  registry holds exactly the entry just created, with the decoded buffer and the
  requested volume (or nothing, when a node could not be created), and every entry
  registered before is out of the registry and no longer playing.
\<close>

theorem solo_invariant:
  "length (activeSources (run evs)) \<le> 1
   \<and> activeSources (fst (play_finish env audioBuffer volume (run evs))) =
       (if create_error env = None then [next_entry (run evs)] else [])
   \<and> (create_error env = None \<longrightarrow>
        (\<exists>en. entries (fst (play_finish env audioBuffer volume (run evs))) (next_entry (run evs)) = Some en
           \<and> src_buffer (source en) = Some audioBuffer \<and> gain_value (gain en) = volume))
   \<and> (\<forall>i \<in> set (activeSources (run evs)).
        i \<notin> set (activeSources (fst (play_finish env audioBuffer volume (run evs))))
        \<and> (\<exists>en. entries (fst (play_finish env audioBuffer volume (run evs))) i = Some en
             \<and> src_status (source en) \<noteq> Playing))"
proof -
  let ?s = "run evs"
  let ?s' = "fst (play_finish env audioBuffer volume ?s)"
  have inv: "module_inv ?s" by (rule inv_run)
  have 1: "length (activeSources ?s) \<le> 1"
    using inv by (simp add: module_inv_def registry_ok_def)
  have old: "i < next_entry ?s \<and> entries ?s i \<noteq> None" if "i \<in> set (activeSources ?s)" for i
    using inv that by (simp add: module_inv_def registry_ok_def list_all_iff)
  have 4: "i \<notin> set (activeSources ?s') \<and>
      (\<exists>en. entries ?s' i = Some en \<and> src_status (source en) \<noteq> Playing)"
    if mem: "i \<in> set (activeSources ?s)" for i
  proof -
    obtain en where en: "entries ?s i = Some en" and lt: "i < next_entry ?s"
      using old [OF mem] by auto
    have "entries ?s' i = Some (stop_entry en)"
      using lt mem en by (simp add: play_finish_old_entry stopAllSounds_entries)
    then show ?thesis
      using lt by (simp add: play_finish_registry stop_entry_effect(1))
  qed
  show ?thesis
    using 1 4 by (simp add: play_finish_registry play_finish_new_entry)
qed

theorem solo_invariant_witness:
  "length (activeSources playing) \<le> 1
   \<and> activeSources playing = [0]
   \<and> activeSources (fst (play_finish example_env example_buffer 1 playing)) = [1]
   \<and> 0 \<notin> set (activeSources (fst (play_finish example_env example_buffer 1 playing)))
   \<and> (\<exists>en. entries (fst (play_finish example_env example_buffer 1 playing)) 0 = Some en
         \<and> src_status (source en) \<noteq> Playing)"
  using solo_invariant [of "[Play example_env example_blob (1 / 2)]" example_env example_buffer 1]
    playing_state
  by (simp add: example_env_def)

text \<open>
  C2 (\<open>stopAllSounds\<close>). From any state whatever, \<open>stopAllSounds\<close> leaves the registry
  empty; every entry that was registered is not playing afterwards and has its scheduled
  gain changes cancelled, whether its \<open>stop\<close> raised or not; the timer that
  \<open>fadeTimeout\<close> held is no longer scheduled and \<open>fadeTimeout\<close> is \<open>null\<close>; with no
  pending fade the timers are untouched; a second call changes nothing.
\<close>

theorem stopAllSounds_clears:
  "activeSources (stopAllSounds s) = []
   \<and> (\<forall>i \<in> set (activeSources s). \<forall>en. entries s i = Some en \<longrightarrow>
        (\<exists>en'. entries (stopAllSounds s) i = Some en'
           \<and> src_status (source en') \<noteq> Playing
           \<and> gain_events (gain en') = filter (\<lambda>ev. event_time ev < 0) (gain_events (gain en))))
   \<and> (\<forall>h. fadeTimeout s = Some h \<and> h \<noteq> 0 \<longrightarrow>
        fadeTimeout (stopAllSounds s) = None \<and> h \<notin> fst ` set (timers (stopAllSounds s)))
   \<and> (fadeTimeout s = None \<longrightarrow>
        fadeTimeout (stopAllSounds s) = None \<and> timers (stopAllSounds s) = timers s)
   \<and> (fade_tracked s \<longrightarrow> fadeTimeout (stopAllSounds s) = None \<and> timers (stopAllSounds s) = [])
   \<and> stopAllSounds (stopAllSounds s) = stopAllSounds s"
proof -
  have 2: "\<exists>en'. entries (stopAllSounds s) i = Some en'
           \<and> src_status (source en') \<noteq> Playing
           \<and> gain_events (gain en') = filter (\<lambda>ev. event_time ev < 0) (gain_events (gain en))"
    if "i \<in> set (activeSources s)" "entries s i = Some en" for i en
    using that by (simp add: stopAllSounds_entries stop_entry_effect)
  have 3: "fadeTimeout (stopAllSounds s) = None \<and> h \<notin> fst ` set (timers (stopAllSounds s))"
    if "fadeTimeout s = Some h" "h \<noteq> 0" for h
    using that by (auto simp: stopAllSounds_timers cancel_fade_def clearTimeout_def)
  have 4: "fadeTimeout (stopAllSounds s) = None \<and> timers (stopAllSounds s) = timers s"
    if "fadeTimeout s = None"
    using that by (simp add: stopAllSounds_timers cancel_fade_def)
  have c: "cancel_fade (stopAllSounds s) = stopAllSounds s"
    by (cases "fadeTimeout s")
      (auto simp: cancel_fade_def [of "stopAllSounds s"] stopAllSounds_timers cancel_fade_def [of s])
  have 6: "stopAllSounds (stopAllSounds s) = stopAllSounds s"
    unfolding stopAllSounds_def [of "stopAllSounds s"] Let_def c by simp
  show ?thesis
    using 2 3 4 6 stopAllSounds_tracked [of s] by simp
qed

theorem stopAllSounds_clears_witness:
  "activeSources unstarted = [0]
   \<and> map_option (\<lambda>en. source_stop (source en)) (entries unstarted 0) = Some (Inl InvalidStateError)
   \<and> fadeTimeout unstarted = Some 1
   \<and> fade_tracked unstarted
   \<and> activeSources (stopAllSounds unstarted) = []
   \<and> (\<exists>en'. entries (stopAllSounds unstarted) 0 = Some en' \<and> src_status (source en') \<noteq> Playing)
   \<and> fadeTimeout (stopAllSounds unstarted) = None
   \<and> timers (stopAllSounds unstarted) = []
   \<and> stopAllSounds (stopAllSounds unstarted) = stopAllSounds unstarted
   \<and> fadeTimeout playing = None
   \<and> timers (stopAllSounds playing) = timers playing"
proof -
  have t: "fade_tracked unstarted"
    using inv_run [of "[Play unstartable_env example_blob (1 / 2), FadeOut 5]"]
    by (simp add: module_inv_def)
  obtain en where en: "entries unstarted 0 = Some en"
    using unstarted_state(5) by auto
  show ?thesis
    using stopAllSounds_clears [of unstarted] stopAllSounds_clears [of playing]
      unstarted_state playing_state t en
    by auto
qed

text \<open>
  C3 (pending fade). In every reachable state at most one timer is scheduled, and it is the
  one \<open>fadeTimeout\<close> holds. \<open>stopAllSounds\<close> leaves none scheduled. A \<open>fadeOutAllSounds\<close>
  that schedules a fade (entries registered, duration above \<open>0.05\<close>) leaves exactly the
  new timer scheduled, whose handle differs from the one scheduled before. After
  \<open>fadeOutAllSounds\<close> followed by \<open>stopAllSounds\<close> no timer is left, so no timer firing
  later does anything.
\<close>

theorem pending_fade_invariant:
  "length (timers (run evs)) \<le> 1
   \<and> list_all (\<lambda>t. fadeTimeout (run evs) = Some (fst t)) (timers (run evs))
   \<and> timers (stopAllSounds (run evs)) = []
   \<and> (activeSources (run evs) \<noteq> [] \<and> 5 / 100 < d \<longrightarrow>
        timers (fadeOutAllSounds d (run evs)) = [(next_timer (run evs), d * 1000)]
        \<and> fadeTimeout (fadeOutAllSounds d (run evs)) = Some (next_timer (run evs))
        \<and> list_all (\<lambda>t. fst t \<noteq> next_timer (run evs)) (timers (run evs)))
   \<and> timers (stopAllSounds (fadeOutAllSounds d (run evs))) = []
   \<and> timer_fired h (stopAllSounds (fadeOutAllSounds d (run evs))) =
       stopAllSounds (fadeOutAllSounds d (run evs))"
proof -
  let ?s = "run evs"
  have inv: "module_inv ?s" by (rule inv_run)
  then have ft: "fade_tracked ?s" by (simp add: module_inv_def)
  have 1: "length (timers ?s) \<le> 1"
    and 2: "list_all (\<lambda>t. fadeTimeout ?s = Some (fst t)) (timers ?s)"
    and 7: "list_all (\<lambda>t. fst t \<noteq> next_timer ?s) (timers ?s)"
    using ft by (auto simp: fade_tracked_def list_all_iff)
  have 3: "timers (stopAllSounds ?s) = []"
    using ft by (simp add: stopAllSounds_tracked)
  have 4: "timers (fadeOutAllSounds d ?s) = [(next_timer ?s, d * 1000)]
        \<and> fadeTimeout (fadeOutAllSounds d ?s) = Some (next_timer ?s)"
    if "activeSources ?s \<noteq> []" "5 / 100 < d"
    using that ft fadeOutAllSounds_long(1,2) [of ?s d] cancel_fade_tracked [of ?s]
    by simp
  have "module_inv (fadeOutAllSounds d ?s)"
    using inv by (rule inv_fadeOutAllSounds)
  then have 5: "timers (stopAllSounds (fadeOutAllSounds d ?s)) = []"
    by (simp add: stopAllSounds_tracked module_inv_def)
  then have 6: "timer_fired h (stopAllSounds (fadeOutAllSounds d ?s)) =
       stopAllSounds (fadeOutAllSounds d ?s)"
    by (simp add: timer_fired_def)
  show ?thesis
    using 1 2 7 3 4 5 6 by simp
qed

theorem pending_fade_invariant_witness:
  "activeSources fading \<noteq> []
   \<and> (5 / 100 :: number) < 3
   \<and> timers fading = [(1, 5000)]
   \<and> fadeTimeout fading = Some 1
   \<and> timers (fadeOutAllSounds 3 fading) = [(2, 3000)]
   \<and> fadeTimeout (fadeOutAllSounds 3 fading) = Some 2
   \<and> timers (stopAllSounds (fadeOutAllSounds 3 fading)) = []
   \<and> timer_fired 2 (stopAllSounds (fadeOutAllSounds 3 fading)) =
       stopAllSounds (fadeOutAllSounds 3 fading)"
  using pending_fade_invariant [of "[Play example_env example_blob (1 / 2), FadeOut 5]" 3 2]
    fading_state
  by simp

text \<open>
  C4 (decode failure), as the code has it. When the payload fails to decode, the call
  catches the error and writes it to the console; the promise resolves, so the caller is
  told nothing. No entry is created or registered, the registry, the entries, the timers
  and \<open>fadeTimeout\<close> are as before. (When \<open>ctx.resume()\<close> has failed first, its error
  is the one logged.)
\<close>

theorem decode_failure_logged:
  assumes "decodeAudioData env (blob_bytes blob) = Inl e"
  shows "fst (playAudioBlob env blob volume s) = Resolved ()
   \<and> activeSources (snd (playAudioBlob env blob volume s)) = activeSources s
   \<and> entries (snd (playAudioBlob env blob volume s)) = entries s
   \<and> next_entry (snd (playAudioBlob env blob volume s)) = next_entry s
   \<and> timers (snd (playAudioBlob env blob volume s)) = timers s
   \<and> fadeTimeout (snd (playAudioBlob env blob volume s)) = fadeTimeout s
   \<and> (\<exists>e'. console (snd (playAudioBlob env blob volume s)) =
          console s @ [(''Error playing audio:'', e')]
        \<and> (snd (play_begin env s) = None \<longrightarrow> e' = e))"
  using assms
  by (cases "snd (play_begin env s)")
    (simp_all add: playAudioBlob_resolved playAudioBlob_cases)

theorem decode_failure_logged_witness:
  "decodeAudioData example_env (blob_bytes empty_blob) = Inl EncodingError
   \<and> fst (playAudioBlob example_env empty_blob 1 playing) = Resolved ()
   \<and> activeSources (snd (playAudioBlob example_env empty_blob 1 playing)) = [0]
   \<and> entries (snd (playAudioBlob example_env empty_blob 1 playing)) = entries playing
   \<and> console (snd (playAudioBlob example_env empty_blob 1 playing)) =
       [(''Error playing audio:'', EncodingError)]"
proof -
  have d: "decodeAudioData example_env (blob_bytes empty_blob) = Inl EncodingError"
    by (simp add: example_env_def empty_blob_def)
  have b: "snd (play_begin example_env playing) = None"
    by (simp add: play_begin_def getAudioContext_def playing_state)
  show ?thesis
    using decode_failure_logged [OF d, of 1 playing] d b playing_state by auto
qed

text \<open>
  The claim C4 as written has the error surfaced to the caller as a failed outcome: on a
  payload that does not decode, the promise is not rejected.
\<close>

theorem decode_failure_not_surfaced:
  "decodeAudioData example_env (blob_bytes empty_blob) = Inl EncodingError
   \<and> fst (playAudioBlob example_env empty_blob 1 initial_state) \<noteq> Rejected EncodingError
   \<and> fst (playAudioBlob example_env empty_blob 1 initial_state) = Resolved ()"
  by (simp add: playAudioBlob_resolved example_env_def empty_blob_def)

text \<open>
  C5 (\<open>fadeOutAllSounds\<close> with a duration of at most \<open>0.05\<close>), as the code has it. When an
  entry is registered, or no fade is pending, the call ends in the state \<open>stopAllSounds\<close>
  gives, after the context has been created if it did not exist: the registry is empty and
  no fade is pending.
\<close>

theorem fade_zero_is_stop:
  assumes "d \<le> 5 / 100" and "activeSources s \<noteq> [] \<or> fadeTimeout s = None"
  shows "fadeOutAllSounds d s = stopAllSounds (snd (getAudioContext s))
   \<and> (audioContext s \<noteq> None \<longrightarrow> fadeOutAllSounds d s = stopAllSounds s)
   \<and> activeSources (fadeOutAllSounds d s) = []
   \<and> fadeTimeout (fadeOutAllSounds d s) = (if fadeTimeout s = Some 0 then Some 0 else None)
   \<and> (fade_tracked s \<longrightarrow>
        fadeTimeout (fadeOutAllSounds d s) = None \<and> timers (fadeOutAllSounds d s) = [])"
proof -
  let ?g = "snd (getAudioContext s)"
  have eq: "fadeOutAllSounds d s = stopAllSounds ?g"
  proof (cases "activeSources s = []")
    case False
    then show ?thesis using assms(1) by (simp add: fadeOutAllSounds_short)
  next
    case True
    then have n: "fadeTimeout s = None" using assms(2) by simp
    have "stopAllSounds ?g = ?g"
      using True n by (simp add: stopAllSounds_def cancel_fade_def)
    then show ?thesis using True by (simp add: fadeOutAllSounds_empty)
  qed
  have same: "?g = s" if "audioContext s \<noteq> None"
    using that by (rule getAudioContext_same)
  have ft: "fade_tracked ?g = fade_tracked s"
    by (rule fade_tracked_cong) simp_all
  have t: "fadeTimeout (stopAllSounds ?g) = (if fadeTimeout s = Some 0 then Some 0 else None)"
    by (cases "fadeTimeout s") (simp_all add: stopAllSounds_timers cancel_fade_def clearTimeout_def)
  show ?thesis
    using same ft stopAllSounds_tracked [of ?g] t by (simp add: eq)
qed

theorem fade_zero_is_stop_witness:
  "(0 :: number) \<le> 5 / 100
   \<and> activeSources fading \<noteq> []
   \<and> audioContext fading \<noteq> None
   \<and> fade_tracked fading
   \<and> fadeOutAllSounds 0 fading = stopAllSounds fading
   \<and> activeSources (fadeOutAllSounds 0 fading) = []
   \<and> fadeTimeout (fadeOutAllSounds 0 fading) = None
   \<and> timers (fadeOutAllSounds 0 fading) = []"
proof -
  have c: "audioContext fading \<noteq> None" by code_simp
  have t: "fade_tracked fading"
    using inv_run [of "[Play example_env example_blob (1 / 2), FadeOut 5]"]
    by (simp add: module_inv_def)
  show ?thesis
    using fade_zero_is_stop [of 0 fading] fading_state c t
    by (auto simp: getAudioContext_same)
qed

text \<open>
  The claim C5 as written covers every prior state. With the registry empty and a fade
  pending (the sound ended by itself during the fade), \<open>fadeOutAllSounds(0)\<close> leaves the
  timer scheduled, and \<open>stopAllSounds\<close> cancels it.
\<close>

theorem fade_zero_keeps_pending_fade:
  "activeSources faded_out = []
   \<and> timers (fadeOutAllSounds 0 faded_out) = [(1, 5000)]
   \<and> fadeTimeout (fadeOutAllSounds 0 faded_out) = Some 1
   \<and> timers (stopAllSounds faded_out) = []
   \<and> fadeTimeout (stopAllSounds faded_out) = None
   \<and> fadeOutAllSounds 0 faded_out \<noteq> stopAllSounds faded_out"
proof -
  have 1: "timers (fadeOutAllSounds 0 faded_out) = [(1, 5000)]"
    and 2: "fadeTimeout (fadeOutAllSounds 0 faded_out) = Some 1"
    and 3: "timers (stopAllSounds faded_out) = []"
    and 4: "fadeTimeout (stopAllSounds faded_out) = None"
    by code_simp+
  have "timers (fadeOutAllSounds 0 faded_out) \<noteq> timers (stopAllSounds faded_out)"
    by (simp add: 1 3)
  then have "fadeOutAllSounds 0 faded_out \<noteq> stopAllSounds faded_out"
    by auto
  then show ?thesis
    using 1 2 3 4 faded_out_state by simp
qed

text \<open>
  C6 (container layout). For every sample sequence of length \<open>L\<close> and every triple of
  whole numbers that the fields of the container can hold (the chunk size, the sample
  rate and the byte rate below \<open>2 ^ 32\<close>; the channel count, the block align and the bit
  depth below \<open>2 ^ 16\<close>; the block align a whole number of bytes), \<open>createWavFile\<close>
  returns \<open>44 + L\<close> bytes of type \<open>audio/wav\<close> whose header is the table's, field by
  field, followed by the samples unchanged from offset 44.
\<close>

theorem createWavFile_layout:
  assumes "36 + length samples < 2 ^ 32"
    and "sr < 2 ^ 32" and "ch < 2 ^ 16" and "bd < 2 ^ 16"
    and "8 dvd ch * bd"
    and "ch * bd div 8 < 2 ^ 16"
    and "sr * ch * bd div 8 < 2 ^ 32"
  shows "\<exists>bytes. createWavFile samples (Finite (of_nat sr)) (Finite (of_nat ch))
         (Finite (of_nat bd)) = Inr \<lparr>blob_bytes = bytes, blob_type = ''audio/wav''\<rparr>
     \<and> length bytes = 44 + length samples
     \<and> take 4 bytes = tag ''RIFF''
     \<and> field bytes 4 4 = 36 + length samples
     \<and> take 4 (drop 8 bytes) = tag ''WAVE''
     \<and> take 4 (drop 12 bytes) = tag ''fmt ''
     \<and> field bytes 16 4 = 16
     \<and> field bytes 20 2 = 1
     \<and> field bytes 22 2 = ch
     \<and> field bytes 24 4 = sr
     \<and> field bytes 28 4 = sr * ch * bd div 8
     \<and> field bytes 32 2 = ch * bd div 8
     \<and> field bytes 34 2 = bd
     \<and> take 4 (drop 36 bytes) = tag ''data''
     \<and> field bytes 40 4 = length samples
     \<and> drop 44 bytes = samples"
proof -
  let ?h = "wav_header (length samples) (Finite (of_nat sr)) (Finite (of_nat ch))
    (Finite (of_nat bd))"
  have len: "length samples < 2 ^ 32" using assms(1) by simp
  note f = field_wav_header(1,2,4,5,13,15) [of "length samples" "Finite (of_nat sr)"
      "Finite (of_nat ch)" "Finite (of_nat bd)" samples]
  note e = wav_fields_exact [OF len assms(2-7)] wav_chunk_size_exact [OF assms(1)]
  show ?thesis
    by (rule exI [of _ "?h @ samples"]) (simp only: createWavFile_bytes f e simp_thms)
qed

theorem createWavFile_layout_witness:
  "\<exists>bytes. createWavFile [1, 2, 3, 4] (Finite 24000) (Finite 1) (Finite 16) =
       Inr \<lparr>blob_bytes = bytes, blob_type = ''audio/wav''\<rparr>
     \<and> length bytes = 48
     \<and> take 4 bytes = tag ''RIFF''
     \<and> field bytes 4 4 = 40
     \<and> field bytes 16 4 = 16
     \<and> field bytes 20 2 = 1
     \<and> field bytes 22 2 = 1
     \<and> field bytes 24 4 = 24000
     \<and> field bytes 28 4 = 48000
     \<and> field bytes 32 2 = 2
     \<and> field bytes 34 2 = 16
     \<and> field bytes 40 4 = 4
     \<and> drop 44 bytes = [1, 2, 3, 4]"
  using createWavFile_layout [of "[1, 2, 3, 4]" 24000 1 16]
  by auto

text \<open>
  C7 (round trip). For every raw PCM byte sequence \<open>X\<close> (shorter than \<open>2 ^ 32\<close> bytes, the
  most the data size field can announce), \<open>createWavFile\<close> with rate 24000, one channel
  and depth 16 returns a payload that the decoder accepts, and the decoded buffer has the
  duration \<open>length X / (24000 * 1 * 2)\<close> seconds, the samples \<open>X\<close>, the rate 24000 and
  one channel.
\<close>

theorem wrap_decode_duration:
  assumes "length X < 2 ^ 32"
  shows "\<exists>bytes buffer. createWavFile X (Finite 24000) (Finite 1) (Finite 16) =
         Inr \<lparr>blob_bytes = bytes, blob_type = ''audio/wav''\<rparr>
     \<and> decode bytes = Inr buffer
     \<and> decoded_duration buffer = of_nat (length X) / (24000 * 1 * 2)
     \<and> decoded_samples buffer = X
     \<and> decoded_sampleRate buffer = 24000
     \<and> decoded_channels buffer = 1"
proof -
  let ?b = "wav_header (length X) (Finite 24000) (Finite 1) (Finite 16) @ X"
  note f = field_wav_header(1,2,4,5,13,15) [of "length X" "Finite 24000" "Finite 1"
      "Finite 16" X]
  have e: "field ?b 20 2 = 1" "field ?b 22 2 = 1" "field ?b 24 4 = 24000"
    "field ?b 28 4 = 48000" "field ?b 40 4 = length X"
    using wav_fields_exact [of X 24000 1 16] assms by simp_all
  have "decode ?b =
      Inr \<lparr>decoded_samples = X, decoded_sampleRate = 24000, decoded_channels = 1,
           decoded_duration = of_nat (length X) / 48000\<rparr>"
    unfolding decode_def by (simp only: f e) simp
  then show ?thesis
    by (intro exI [of _ ?b] exI [of _ "\<lparr>decoded_samples = X, decoded_sampleRate = 24000,
      decoded_channels = 1, decoded_duration = of_nat (length X) / 48000\<rparr>"])
      (simp add: createWavFile_bytes)
qed

theorem wrap_decode_duration_witness:
  "length [1, 2, 3, 4 :: byte] < 2 ^ 32
   \<and> (\<exists>bytes buffer. createWavFile [1, 2, 3, 4] (Finite 24000) (Finite 1) (Finite 16) =
         Inr \<lparr>blob_bytes = bytes, blob_type = ''audio/wav''\<rparr>
      \<and> decode bytes = Inr buffer
      \<and> decoded_duration buffer = 1 / 12000
      \<and> decoded_samples buffer = [1, 2, 3, 4])"
  using wrap_decode_duration [of "[1, 2, 3, 4]"]
  by auto

text \<open>
  C8 (\<open>setMasterVolume\<close>). In every reachable state, and for every level, the call leaves
  the value of the master gain as it is and schedules one approach to the level, starting
  at the current time, with the time constant \<open>0.02\<close> seconds, which is positive. A second
  call with the same level schedules the same approach again, to the target already set.
\<close>

theorem setMasterVolume_smooth:
  "\<exists>g. masterGainNode (snd (getAudioContext (run evs))) = Some g
     \<and> masterGainNode (setMasterVolume level (run evs)) =
         Some (g\<lparr>gain_events := gain_events g @
           [SetTargetAtTime level (currentTime (fst (getAudioContext (run evs)))) (1 / 50)]\<rparr>)
     \<and> masterGainNode (setMasterVolume level (setMasterVolume level (run evs))) =
         Some (g\<lparr>gain_events := gain_events g @
           [SetTargetAtTime level (currentTime (fst (getAudioContext (run evs)))) (1 / 50),
            SetTargetAtTime level (currentTime (fst (getAudioContext (run evs)))) (1 / 50)]\<rparr>)
     \<and> (0 :: number) < 1 / 50"
proof -
  have "master_ready (run evs)"
    using inv_run [of evs] by (simp add: module_inv_def)
  then obtain g where g: "masterGainNode (snd (getAudioContext (run evs))) = Some g"
    using getAudioContext_master [of "run evs"] by auto
  have 1: "masterGainNode (setMasterVolume level (run evs)) =
      Some (setTargetAtTime level (currentTime (fst (getAudioContext (run evs)))) (2 / 100) g)"
    by (simp add: setMasterVolume_master g)
  have c: "getAudioContext (setMasterVolume level (run evs)) =
      (fst (getAudioContext (run evs)), setMasterVolume level (run evs))"
    by (rule getAudioContext_exists) simp
  have 2: "masterGainNode (setMasterVolume level (setMasterVolume level (run evs))) =
      Some (setTargetAtTime level (currentTime (fst (getAudioContext (run evs)))) (2 / 100)
        (setTargetAtTime level (currentTime (fst (getAudioContext (run evs)))) (2 / 100) g))"
    by (simp add: setMasterVolume_master [of level "setMasterVolume level (run evs)"] c 1)
  show ?thesis
    using g 1 2 by (simp add: setTargetAtTime_def)
qed

theorem setMasterVolume_smooth_witness:
  "masterGainNode (setMasterVolume (1 / 5) (run [])) =
     Some \<lparr>gain_value = 1, gain_events = [SetTargetAtTime (1 / 5) 0 (1 / 50)],
           gain_output = Some Destination\<rparr>
   \<and> masterGainNode (setMasterVolume (1 / 5) (setMasterVolume (1 / 5) (run []))) =
     Some \<lparr>gain_value = 1,
           gain_events = [SetTargetAtTime (1 / 5) 0 (1 / 50), SetTargetAtTime (1 / 5) 0 (1 / 50)],
           gain_output = Some Destination\<rparr>"
proof -
  have r: "run [] = initial_state" by (simp add: run_def)
  have g: "getAudioContext initial_state =
      (\<lparr>state = Suspended, currentTime = 0\<rparr>,
       initial_state\<lparr>audioContext := Some \<lparr>state = Suspended, currentTime = 0\<rparr>,
         masterGainNode := Some \<lparr>gain_value = 1, gain_events = [], gain_output = Some Destination\<rparr>\<rparr>)"
    by (simp add: getAudioContext_def initial_state_def Let_def)
  show ?thesis
    using setMasterVolume_smooth [of "[]" "1 / 5"] by (auto simp: r g)
qed

text \<open>
  C9 (\<open>fadeOutAllSounds\<close> on an empty registry), as the code has it. The call creates the
  context and the master gain node when they do not exist yet, and nothing else changes:
  the registry, the entries with their gains, \<open>fadeTimeout\<close> and the scheduled timer are
  as before. When the context exists the state is unchanged.
\<close>

theorem fade_on_empty_registry:
  assumes "activeSources s = []"
  shows "fadeOutAllSounds d s = snd (getAudioContext s)
   \<and> (audioContext s \<noteq> None \<longrightarrow> fadeOutAllSounds d s = s)
   \<and> activeSources (fadeOutAllSounds d s) = activeSources s
   \<and> entries (fadeOutAllSounds d s) = entries s
   \<and> fadeTimeout (fadeOutAllSounds d s) = fadeTimeout s
   \<and> timers (fadeOutAllSounds d s) = timers s
   \<and> next_timer (fadeOutAllSounds d s) = next_timer s
   \<and> next_entry (fadeOutAllSounds d s) = next_entry s
   \<and> console (fadeOutAllSounds d s) = console s
   \<and> (audioContext s \<noteq> None \<or> masterGainNode (fadeOutAllSounds d s) =
        Some \<lparr>gain_value = 1, gain_events = [], gain_output = Some Destination\<rparr>)"
proof -
  have same: "snd (getAudioContext s) = s" if "audioContext s \<noteq> None"
    using that by (rule getAudioContext_same)
  show ?thesis
    using same by (auto simp: fadeOutAllSounds_empty [OF assms] getAudioContext_master_eq)
qed

theorem fade_on_empty_registry_witness:
  "activeSources faded_out = []
   \<and> audioContext faded_out \<noteq> None
   \<and> fadeOutAllSounds 0 faded_out = faded_out
   \<and> fadeOutAllSounds 5 faded_out = faded_out
   \<and> timers (fadeOutAllSounds 0 faded_out) = [(1, 5000)]
   \<and> fadeTimeout (fadeOutAllSounds 0 faded_out) = Some 1
   \<and> activeSources initial_state = []
   \<and> audioContext initial_state = None
   \<and> timers (fadeOutAllSounds 0 initial_state) = []
   \<and> masterGainNode (fadeOutAllSounds 0 initial_state) =
       Some \<lparr>gain_value = 1, gain_events = [], gain_output = Some Destination\<rparr>"
proof -
  have i: "activeSources initial_state = []" "audioContext initial_state = None"
    "timers initial_state = []"
    by (simp_all add: initial_state_def)
  show ?thesis
    using fade_on_empty_registry [of faded_out 0] fade_on_empty_registry [of faded_out 5]
      fade_on_empty_registry [of initial_state 0] faded_out_state i
    by (auto simp: getAudioContext_same)
qed

text \<open>
  The claim C9 as written has the call change nothing at all. Called first of all, with
  no context yet, it creates the context and the master gain node.
\<close>

theorem fade_on_empty_registry_creates_context:
  "activeSources initial_state = []
   \<and> fadeOutAllSounds 0 initial_state \<noteq> initial_state
   \<and> audioContext initial_state = None
   \<and> audioContext (fadeOutAllSounds 0 initial_state) = Some \<lparr>state = Suspended, currentTime = 0\<rparr>
   \<and> masterGainNode (fadeOutAllSounds 0 initial_state) =
       Some \<lparr>gain_value = 1, gain_events = [], gain_output = Some Destination\<rparr>"
proof -
  have e: "activeSources initial_state = []" and n: "audioContext initial_state = None"
    by (simp_all add: initial_state_def)
  have f: "fadeOutAllSounds 0 initial_state = snd (getAudioContext initial_state)"
    using e by (rule fadeOutAllSounds_empty)
  have a: "audioContext (fadeOutAllSounds 0 initial_state) =
      Some \<lparr>state = Suspended, currentTime = 0\<rparr>"
    by (simp add: f getAudioContext_def n Let_def)
  have "audioContext (fadeOutAllSounds 0 initial_state) \<noteq> audioContext initial_state"
    by (simp add: a n)
  then have "fadeOutAllSounds 0 initial_state \<noteq> initial_state"
    by auto
  then show ?thesis
    using e n a by (simp add: f getAudioContext_master_eq)
qed

text \<open>
  C10 (\<open>playAudioBlob\<close> never rejects). Whatever fails, the promise resolves, and the
  failure is written to the console and nowhere else: the error of \<open>ctx.resume()\<close> when
  the context was suspended and could not be resumed; otherwise the error of the
  decoding; otherwise the error of the creation of a node; otherwise the error of the
  start of the source. When nothing fails the console is as before. The caller receives
  the same resolved promise in every case.
\<close>

theorem playAudioBlob_never_rejects:
  "fst (playAudioBlob env blob volume s) = Resolved ()
   \<and> console (snd (playAudioBlob env blob volume s)) =
       console s @
       (case (if state (fst (getAudioContext s)) = Suspended then resume_error env else None) of
          Some e \<Rightarrow> [(''Error playing audio:'', e)]
        | None \<Rightarrow>
            (case decodeAudioData env (blob_bytes blob) of
               Inl e \<Rightarrow> [(''Error playing audio:'', e)]
             | Inr audioBuffer \<Rightarrow>
                 (case create_error env of
                    Some e \<Rightarrow> [(''Error playing audio:'', e)]
                  | None \<Rightarrow>
                      (case start_error env of
                         Some e \<Rightarrow> [(''Error playing audio:'', e)]
                       | None \<Rightarrow> []))))"
  by (simp add: playAudioBlob_resolved playAudioBlob_cases play_begin_error play_finish_error
      split: option.splits sum.splits)

theorem playAudioBlob_never_rejects_witness:
  "fst (playAudioBlob failing_env empty_blob 1 initial_state) = Resolved ()
   \<and> console (snd (playAudioBlob failing_env empty_blob 1 initial_state)) =
       [(''Error playing audio:'', NotAllowedError)]
   \<and> fst (playAudioBlob example_env empty_blob 1 playing) = Resolved ()
   \<and> console (snd (playAudioBlob example_env empty_blob 1 playing)) =
       [(''Error playing audio:'', EncodingError)]
   \<and> fst (playAudioBlob uncreatable_env example_blob 1 playing) = Resolved ()
   \<and> console (snd (playAudioBlob uncreatable_env example_blob 1 playing)) =
       [(''Error playing audio:'', NotSupportedError)]
   \<and> fst (playAudioBlob unstartable_env example_blob 1 playing) = Resolved ()
   \<and> console (snd (playAudioBlob unstartable_env example_blob 1 playing)) =
       [(''Error playing audio:'', InvalidStateError)]
   \<and> fst (playAudioBlob example_env example_blob 1 playing) = Resolved ()
   \<and> console (snd (playAudioBlob example_env example_blob 1 playing)) = []"
proof -
  have i: "state (fst (getAudioContext initial_state)) = Suspended"
    "console initial_state = []"
    by (simp_all add: getAudioContext_def initial_state_def Let_def)
  have p: "state (fst (getAudioContext playing)) = Running"
    by (simp add: getAudioContext_def playing_state)
  have f: "resume_error failing_env = Some NotAllowedError"
    by (simp add: failing_env_def)
  have e: "decodeAudioData example_env (blob_bytes empty_blob) = Inl EncodingError"
    "decodeAudioData example_env (blob_bytes example_blob) =
       Inr \<lparr>buffer_length = 4, buffer_sampleRate = 24000, buffer_channels = 1\<rparr>"
    "create_error example_env = None" "start_error example_env = None"
    by (simp_all add: example_env_def empty_blob_def example_blob_def)
  have c: "decodeAudioData uncreatable_env (blob_bytes example_blob) =
       Inr \<lparr>buffer_length = 4, buffer_sampleRate = 24000, buffer_channels = 1\<rparr>"
    "create_error uncreatable_env = Some NotSupportedError"
    by (simp_all add: uncreatable_env_def example_env_def example_blob_def)
  have u: "decodeAudioData unstartable_env (blob_bytes example_blob) =
       Inr \<lparr>buffer_length = 4, buffer_sampleRate = 24000, buffer_channels = 1\<rparr>"
    "create_error unstartable_env = None"
    "start_error unstartable_env = Some InvalidStateError"
    by (simp_all add: unstartable_env_def example_env_def example_blob_def)
  show ?thesis
    using playAudioBlob_never_rejects [of failing_env empty_blob 1 initial_state]
      playAudioBlob_never_rejects [of example_env empty_blob 1 playing]
      playAudioBlob_never_rejects [of uncreatable_env example_blob 1 playing]
      playAudioBlob_never_rejects [of unstartable_env example_blob 1 playing]
      playAudioBlob_never_rejects [of example_env example_blob 1 playing]
    by (simp add: i p f e c u playing_state)
qed

end
